theory Spec2Isabelle
  imports Main "HOL-Library.Finite_Map"
begin

text \<open>
  The package \<^verbatim>\<open>dmidecode\<close> parses the report of the \<^verbatim>\<open>dmidecode\<close> tool into a table of
  records and answers queries on the table. This theory embeds \<^verbatim>\<open>New\<close>,
  \<^verbatim>\<open>ParseDmidecode\<close>, \<^verbatim>\<open>GenericSearchBy\<close>, \<^verbatim>\<open>SearchByName\<close> and \<^verbatim>\<open>SearchByType\<close> of
  \<^verbatim>\<open>dmidecode.go\<close>, with the functions of Go's library they call, and proves properties of
  them. \<^verbatim>\<open>Run\<close>, \<^verbatim>\<open>FindBin\<close> and \<^verbatim>\<open>ExecDmidecode\<close> look for the tool in the file system
  and run it; they only hand its output to \<^verbatim>\<open>ParseDmidecode\<close> and are not modelled.
\<close>

section \<open>Strings and the library functions the parser calls\<close>

text \<open>
  A Go \<^verbatim>\<open>string\<close> is a sequence of bytes, and so is \<^typ>\<open>string\<close>: every \<^typ>\<open>char\<close> is
  one byte. The two control bytes the parser looks for get a name.
\<close>

abbreviation TAB :: char where "TAB \<equiv> CHR 0x09"

abbreviation NL :: char where "NL \<equiv> CHR 0x0A"

text \<open>
  \<^verbatim>\<open>strings.Split(s, sep)\<close> for a non-empty separator: the text is cut at every occurrence
  of \<open>sep\<close>, found from the left and never overlapping, and the pieces between the cuts are
  returned, so a text with \<open>n\<close> occurrences gives \<open>n + 1\<close> pieces and the empty text gives
  the one piece \<open>''''\<close>. The parser only calls it with the separators
  \<^verbatim>\<open>"\n\n"\<close> and \<^verbatim>\<open>"\n"\<close>; Go's behaviour for the empty separator is not modelled.
  \<open>Split_from sep acc s\<close> is the scan with the piece read so far in \<open>acc\<close>.
\<close>

function Split_from :: "string \<Rightarrow> string \<Rightarrow> string \<Rightarrow> string list" where
  "Split_from sep acc [] = [acc]"
| "Split_from sep acc (c # cs) =
     (if sep \<noteq> [] \<and> take (length sep) (c # cs) = sep
      then acc # Split_from sep [] (drop (length sep) (c # cs))
      else Split_from sep (acc @ [c]) cs)"
  by pat_completeness auto
termination
  by (relation "measure (\<lambda>(sep, acc, s). length s)") auto

definition Split :: "string \<Rightarrow> string \<Rightarrow> string list" where
  "Split s sep = Split_from sep [] s"

text \<open>
  \<^verbatim>\<open>strconv.Itoa\<close>: the decimal digits of an integer, with a minus sign when it is negative.
\<close>

fun digits :: "nat \<Rightarrow> string" where
  "digits n = (if n < 10 then [''0123456789'' ! n]
               else digits (n div 10) @ [''0123456789'' ! (n mod 10)])"

declare digits.simps [simp del]

definition Itoa :: "int \<Rightarrow> string" where
  "Itoa i = (if i < 0 then CHR ''-'' # digits (nat (- i)) else digits (nat i))"

subsection \<open>Regular expressions\<close>

text \<open>
  The four patterns of the parser use literal bytes, the classes \<^verbatim>\<open>\s\<close>, \<^verbatim>\<open>\d\<close> and
  \<^verbatim>\<open>.\<close> under a greedy \<^verbatim>\<open>+\<close>, capturing groups around such a repetition, and the
  anchors \<^verbatim>\<open>^\<close> and \<^verbatim>\<open>$\<close>. That fragment of Go's \<^verbatim>\<open>regexp\<close> is modelled here.
  In Go \<^verbatim>\<open>\s\<close> is \<^verbatim>\<open>[\t\n\f\r ]\<close>, \<^verbatim>\<open>\d\<close> is \<^verbatim>\<open>[0-9]\<close>, and \<^verbatim>\<open>.\<close> is
  everything but the line feed; a byte that is not valid UTF-8 is matched by \<^verbatim>\<open>.\<close>
  on its own, and every group of the four patterns starts and ends next to an ASCII
  byte or at an end of the text, so matching bytes gives what matching runes gives.
\<close>

datatype cls = Space | Digit | Dot

fun in_cls :: "cls \<Rightarrow> char \<Rightarrow> bool" where
  "in_cls Space c = (c = TAB \<or> c = NL \<or> c = CHR 0x0C \<or> c = CHR 0x0D \<or> c = CHR '' '')"
| "in_cls Digit c = (c \<in> set ''0123456789'')"
| "in_cls Dot c = (c \<noteq> NL)"

text \<open>
  One piece of a pattern: a literal byte, \<open>c+\<close> for a class \<open>c\<close>, the group \<open>(c+)\<close>,
  or \<^verbatim>\<open>$\<close> (without the \<^verbatim>\<open>m\<close> flag: the end of the text).
\<close>

datatype item = Lit char | Plus cls | Cap cls | Eol

text \<open>
  A pattern is its pieces in order, and whether it starts with \<^verbatim>\<open>^\<close>.
\<close>

datatype regexp = Regexp bool "item list"

text \<open>
  Go's \<^verbatim>\<open>regexp\<close> returns the match that starts leftmost and, among those, the one a
  backtracking search finds first: a greedy \<open>+\<close> takes the longest run of the class and
  gives bytes back one at a time until the rest of the pattern matches.
  \<open>backtrack f n\<close> tries the lengths \<open>n, n - 1, \<dots>, 1\<close> in that order.
\<close>

fun backtrack :: "(nat \<Rightarrow> 'a option) \<Rightarrow> nat \<Rightarrow> 'a option" where
  "backtrack f 0 = None"
| "backtrack f (Suc n) = (case f (Suc n) of Some r \<Rightarrow> Some r | None \<Rightarrow> backtrack f n)"

text \<open>
  \<open>match_here is s\<close> matches the pieces \<open>is\<close> at the start of \<open>s\<close> and returns the text
  of the groups, in order, together with the text left after the match.
\<close>

fun match_here :: "item list \<Rightarrow> string \<Rightarrow> (string list \<times> string) option" where
  "match_here [] s = Some ([], s)"
| "match_here (Lit c # is) s =
     (case s of [] \<Rightarrow> None | x # t \<Rightarrow> if x = c then match_here is t else None)"
| "match_here (Eol # is) s = (if s = [] then match_here is s else None)"
| "match_here (Plus k # is) s =
     backtrack (\<lambda>n. match_here is (drop n s)) (length (takeWhile (in_cls k) s))"
| "match_here (Cap k # is) s =
     backtrack (\<lambda>n. case match_here is (drop n s) of
                       None \<Rightarrow> None
                     | Some (gs, r) \<Rightarrow> Some (take n s # gs, r))
       (length (takeWhile (in_cls k) s))"

text \<open>
  The result of \<^verbatim>\<open>FindStringSubmatch\<close>: the matched text at index 0 and the groups
  after it; the empty list stands for Go's \<^verbatim>\<open>nil\<close>, which is what a text without
  a match gives.
\<close>

definition submatches :: "string \<Rightarrow> (string list \<times> string) option \<Rightarrow> string list" where
  "submatches s m =
     (case m of None \<Rightarrow> [] | Some (gs, r) \<Rightarrow> take (length s - length r) s # gs)"

fun leftmost :: "item list \<Rightarrow> string \<Rightarrow> string list" where
  "leftmost is [] = submatches [] (match_here is [])"
| "leftmost is (x # t) =
     (case match_here is (x # t) of
        Some m \<Rightarrow> submatches (x # t) (Some m)
      | None \<Rightarrow> leftmost is t)"

fun FindStringSubmatch :: "regexp \<Rightarrow> string \<Rightarrow> string list" where
  "FindStringSubmatch (Regexp anchored is) s =
     (if anchored then submatches s (match_here is s) else leftmost is s)"

section \<open>The program: \<^verbatim>\<open>dmidecode.go\<close>\<close>

text \<open>
  A Go map is a finite map; \<^verbatim>\<open>nil\<close>, the map of a \<^verbatim>\<open>DMI\<close> value that \<^verbatim>\<open>New\<close> did not
  make, is \<open>None\<close>. Reading a \<^verbatim>\<open>nil\<close> map is reading an empty one; assigning to an
  entry of a \<^verbatim>\<open>nil\<close> map panics. The records a table holds are only read once they
  are stored, so a \<^verbatim>\<open>nil\<close> record is modelled as the empty one.
\<close>

type_synonym attrs = "(string, string) fmap"

type_synonym table = "(string, attrs) fmap"

record DMI =
  Data :: "table option"
  Binary :: string

definition DMIDecodeBinary :: string where
  "DMIDecodeBinary = ''dmidecode''"

definition New :: DMI where
  "New = \<lparr>Data = Some fmempty, Binary = DMIDecodeBinary\<rparr>"

text \<open>
  The two errors \<^verbatim>\<open>fmt.Errorf\<close> makes: \<^verbatim>\<open>"unable to parse 'dmidecode' output"\<close> and
  \<^verbatim>\<open>"DMI data is empty; make sure to .Run() first"\<close>. \<open>None\<close> is the \<^verbatim>\<open>nil\<close> error.
\<close>

datatype error = UnableToParse | DataIsEmpty

datatype panic = AssignmentToEntryInNilMap

text \<open>\<^verbatim>\<open>len(d.Data)\<close>: the number of entries.\<close>

fun len :: "table option \<Rightarrow> nat" where
  "len None = 0"
| "len (Some m) = fcard (fmdom m)"

text \<open>\<^verbatim>\<open>v[param]\<close>: a key the map does not hold reads as the empty string.\<close>

definition index :: "attrs \<Rightarrow> string \<Rightarrow> string" where
  "index v param = (case fmlookup v param of None \<Rightarrow> [] | Some x \<Rightarrow> x)"

subsection \<open>\<^verbatim>\<open>ParseDmidecode\<close>\<close>

text \<open>
  The four patterns, compiled at source lines 95, 118, 136 and 146:
  \<^verbatim>\<open>^Handle\s+(.+),\s+DMI\s+type\s+(\d+),\s+(\d+)\s+bytes$\<close>, \<^verbatim>\<open>^\t\t(.+)$\<close>,
  \<^verbatim>\<open>\t(.+):\s+(.+)$\<close> and \<^verbatim>\<open>\t(.+):$\<close>. The last two have no \<^verbatim>\<open>^\<close>: they match from
  the leftmost tab on.
\<close>

definition handleRegex :: regexp where
  "handleRegex = Regexp True
     (map Lit ''Handle'' @ [Plus Space, Cap Dot, Lit (CHR '',''), Plus Space] @
      map Lit ''DMI'' @ [Plus Space] @ map Lit ''type'' @
      [Plus Space, Cap Digit, Lit (CHR '',''), Plus Space, Cap Digit, Plus Space] @
      map Lit ''bytes'' @ [Eol])"

definition inBlockRegex :: regexp where
  "inBlockRegex = Regexp True [Lit TAB, Lit TAB, Cap Dot, Eol]"

definition recordRegex :: regexp where
  "recordRegex = Regexp False [Lit TAB, Cap Dot, Lit (CHR '':''), Plus Space, Cap Dot, Eol]"

definition recordRegex2 :: regexp where
  "recordRegex2 = Regexp False [Lit TAB, Cap Dot, Lit (CHR '':''), Eol]"

text \<open>
  The loop over lines 2, 3, \<dots> of one record (source lines 111 to 155), as a function
  of the lines left. Between source lines 104 and 155 \<^verbatim>\<open>d.Data[dmiHandle]\<close> is the map
  made at line 104, so the loop is a function on that map, \<open>r\<close>; its other state is
  the two local variables. Past the first test \<^verbatim>\<open>inBlockElement\<close> is empty: it was
  empty before, or line 132 has reset it.
\<close>

fun scan :: "attrs \<Rightarrow> string \<Rightarrow> string \<Rightarrow> string list \<Rightarrow> attrs" where
  "scan r inBlockElement inBlockList [] = r"
| "scan r inBlockElement inBlockList (line # rest) =
     (let inBlockData =
        (if inBlockElement \<noteq> [] then FindStringSubmatch inBlockRegex line else [])
      in
      if inBlockElement \<noteq> [] \<and> length inBlockData > 0 then
        (let inBlockList' =
           (if length inBlockList = 0 then inBlockData ! 1
            else inBlockList @ [TAB, TAB] @ inBlockData ! 1)
         in scan (fmupd inBlockElement inBlockList' r) inBlockElement inBlockList' rest)
      else
        (let recordData = FindStringSubmatch recordRegex line in
         if length recordData > 0 then
           scan (fmupd (recordData ! 1) (recordData ! 2) r) [] inBlockList rest
         else
           (let recordData2 = FindStringSubmatch recordRegex2 line in
            if length recordData2 > 0 then scan r (recordData2 ! 1) inBlockList rest
            else scan r [] inBlockList rest)))"

text \<open>
  The body of the loop over the records (source lines 88 to 155). \<^verbatim>\<open>continue\<close> leaves
  \<open>d\<close> as it is. Line 104 assigns to an entry of \<^verbatim>\<open>d.Data\<close>, which panics when the map
  is \<^verbatim>\<open>nil\<close>.
\<close>

definition process_record :: "DMI \<Rightarrow> string \<Rightarrow> panic + DMI" where
  "process_record d rec =
     (let recordElements = Split rec [NL] in
      if length recordElements < 3 then Inr d
      else
        (let handleData = FindStringSubmatch handleRegex (recordElements ! 0) in
         if length handleData = 0 then Inr d
         else
           (let dmiHandle = handleData ! 1 in
            case Data d of
              None \<Rightarrow> Inl AssignmentToEntryInNilMap
            | Some m \<Rightarrow>
                Inr (d\<lparr>Data := Some (fmupd dmiHandle
                  (scan (fmupd ''DMIName'' (recordElements ! 1)
                          (fmupd ''DMISize'' (handleData ! 3)
                            (fmupd ''DMIType'' (handleData ! 2) fmempty)))
                     [] [] (drop 2 recordElements)) m)\<rparr>))))"

fun records_loop :: "DMI \<Rightarrow> string list \<Rightarrow> panic + DMI" where
  "records_loop d [] = Inr d"
| "records_loop d (rec # rest) =
     (case process_record d rec of
        Inl p \<Rightarrow> Inl p
      | Inr d' \<Rightarrow> records_loop d' rest)"

text \<open>
  The method changes the \<^verbatim>\<open>DMI\<close> value it is called on and returns an error or \<^verbatim>\<open>nil\<close>:
  the model returns both, or the panic.
\<close>

definition ParseDmidecode :: "DMI \<Rightarrow> string \<Rightarrow> panic + (DMI \<times> error option)" where
  "ParseDmidecode d output =
     (case records_loop d (Split output [NL, NL]) of
        Inl p \<Rightarrow> Inl p
      | Inr d' \<Rightarrow>
          if len (Data d') = 0 then Inr (d', Some UnableToParse) else Inr (d', None))"

subsection \<open>The queries\<close>

text \<open>
  \<^verbatim>\<open>for _, v := range d.Data\<close> visits every entry of the map once, in an order Go leaves
  unspecified. The order is a parameter of the model: \<open>order\<close> lists the handles as the
  loop meets them, and \<open>range_values\<close> are the records it meets.
\<close>

fun range_values :: "table option \<Rightarrow> string list \<Rightarrow> attrs list" where
  "range_values None order = []"
| "range_values (Some m) order = List.map_filter (fmlookup m) order"

definition range_order :: "table option \<Rightarrow> string list \<Rightarrow> bool" where
  "range_order data order =
     (distinct order \<and>
      fset_of_list order = (case data of None \<Rightarrow> {||} | Some m \<Rightarrow> fmdom m))"

text \<open>
  The result of a query is the \<^verbatim>\<open>DMI\<close> value after the call, the map returned
  (\<open>None\<close> for \<^verbatim>\<open>nil\<close>) and the error.
\<close>

definition GenericSearchBy ::
  "DMI \<Rightarrow> string list \<Rightarrow> string \<Rightarrow> string \<Rightarrow> DMI \<times> attrs option \<times> error option" where
  "GenericSearchBy d order param val =
     (if len (Data d) = 0 then (d, None, Some DataIsEmpty)
      else
        (case List.find (\<lambda>v. index v param = val) (range_values (Data d) order) of
           Some v \<Rightarrow> (d, Some v, None)
         | None \<Rightarrow> (d, Some fmempty, None)))"

text \<open>
  \<^verbatim>\<open>SearchByType\<close> takes a Go \<^verbatim>\<open>int\<close>; every value of it is an integer, and \<^verbatim>\<open>Itoa\<close> is
  modelled on all integers.
\<close>

definition SearchByName ::
  "DMI \<Rightarrow> string list \<Rightarrow> string \<Rightarrow> DMI \<times> attrs option \<times> error option" where
  "SearchByName d order name = GenericSearchBy d order ''DMIName'' name"

definition SearchByType ::
  "DMI \<Rightarrow> string list \<Rightarrow> int \<Rightarrow> DMI \<times> attrs option \<times> error option" where
  "SearchByType d order id' = GenericSearchBy d order ''DMIType'' (Itoa id')"

subsection \<open>Reading a table\<close>

text \<open>
  \<^verbatim>\<open>v, ok := d.Data[h]\<close>: the record of a handle, \<open>None\<close> when the table does not hold
  the handle.
\<close>

definition entry :: "DMI \<Rightarrow> string \<Rightarrow> attrs option" where
  "entry d h = (case Data d of None \<Rightarrow> None | Some m \<Rightarrow> fmlookup m h)"

section \<open>Notions the properties are stated with\<close>

text \<open>
  The classes of the groups of a pattern, in order, and what a group \<open>(c+)\<close> can hold:
  a non-empty run of bytes of the class \<open>c\<close>.
\<close>

fun cap_classes :: "item list \<Rightarrow> cls list" where
  "cap_classes [] = []"
| "cap_classes (Cap k # is) = k # cap_classes is"
| "cap_classes (i # is) = cap_classes is"

definition run_of :: "cls \<Rightarrow> string \<Rightarrow> bool" where
  "run_of k g = (g \<noteq> [] \<and> list_all (in_cls k) g)"

text \<open>
  A line names the key \<open>k\<close> when one of the two patterns of the attribute lines matches
  it with \<open>k\<close> as its first group: these are the only keys the loop over the lines of a
  record assigns to.
\<close>

definition names_key :: "string \<Rightarrow> string \<Rightarrow> bool" where
  "names_key line k =
     (let recordData = FindStringSubmatch recordRegex line;
          recordData2 = FindStringSubmatch recordRegex2 line
      in (recordData \<noteq> [] \<and> recordData ! 1 = k) \<or> (recordData2 \<noteq> [] \<and> recordData2 ! 1 = k))"

text \<open>
  The entry one record of the input gives: nothing when the loop skips it, else the
  handle and the map stored under it (source lines 88 to 155 without the table).
\<close>

definition block_entry :: "string \<Rightarrow> (string \<times> attrs) option" where
  "block_entry rec =
     (let recordElements = Split rec [NL] in
      if length recordElements < 3 then None
      else
        (let handleData = FindStringSubmatch handleRegex (recordElements ! 0) in
         if length handleData = 0 then None
         else Some (handleData ! 1,
                scan (fmupd ''DMIName'' (recordElements ! 1)
                       (fmupd ''DMISize'' (handleData ! 3)
                         (fmupd ''DMIType'' (handleData ! 2) fmempty)))
                  [] [] (drop 2 recordElements))))"

fun entries_of :: "string list \<Rightarrow> table \<Rightarrow> table" where
  "entries_of [] t = t"
| "entries_of (rec # rest) t =
     entries_of rest (case block_entry rec of None \<Rightarrow> t | Some (h, r) \<Rightarrow> fmupd h r t)"

text \<open>
  A record has the three reserved attributes when it holds the three keys.
\<close>

definition has_reserved :: "attrs \<Rightarrow> bool" where
  "has_reserved r =
     (''DMIType'' |\<in>| fmdom r \<and> ''DMISize'' |\<in>| fmdom r \<and> ''DMIName'' |\<in>| fmdom r)"

text \<open>
  Fragments joined by the separator of two tabs, and the fragments of a run of doubly
  indented lines: what the pattern of those lines captures in each.
\<close>

fun join_tabs :: "string list \<Rightarrow> string" where
  "join_tabs [] = []"
| "join_tabs [f] = f"
| "join_tabs (f # g # fs) = f @ [TAB, TAB] @ join_tabs (g # fs)"

definition fragments :: "string list \<Rightarrow> string list" where
  "fragments ls = map (\<lambda>line. FindStringSubmatch inBlockRegex line ! 1) ls"

section \<open>Example inputs\<close>

text \<open>
  Records as \<^verbatim>\<open>dmidecode\<close> prints them, the maps the parser stores for them, and the
  \<^verbatim>\<open>DMI\<close> value of \<^verbatim>\<open>New\<close> with a given table. These are abbreviations: a statement
  that uses one is the statement about the text or the map itself.
\<close>

abbreviation system_block :: string where
  "system_block \<equiv>
     ''Handle 0x0001, DMI type 1, 27 bytes'' @ [NL] @ ''System Information'' @ [NL, TAB] @
     ''Manufacturer: Acme''"

abbreviation system_attrs :: attrs where
  "system_attrs \<equiv>
     fmupd ''Manufacturer'' ''Acme'' (fmupd ''DMIName'' ''System Information''
       (fmupd ''DMISize'' ''27'' (fmupd ''DMIType'' ''1'' fmempty)))"

abbreviation version_block :: string where
  "version_block \<equiv>
     ''Handle 0x0001, DMI type 1, 27 bytes'' @ [NL] @ ''System Information'' @ [NL, TAB] @
     ''Version: 2''"

abbreviation version_attrs :: attrs where
  "version_attrs \<equiv>
     fmupd ''Version'' ''2'' (fmupd ''DMIName'' ''System Information''
       (fmupd ''DMISize'' ''27'' (fmupd ''DMIType'' ''1'' fmempty)))"

abbreviation board_block :: string where
  "board_block \<equiv>
     ''Handle 0x0002, DMI type 2, 15 bytes'' @ [NL] @ ''Base Board Information'' @ [NL, TAB] @
     ''Version: 1.0''"

abbreviation board_attrs :: attrs where
  "board_attrs \<equiv>
     fmupd ''Version'' ''1.0'' (fmupd ''DMIName'' ''Base Board Information''
       (fmupd ''DMISize'' ''15'' (fmupd ''DMIType'' ''2'' fmempty)))"

abbreviation tabled :: "table \<Rightarrow> DMI" where
  "tabled t \<equiv> \<lparr>Data = Some t, Binary = ''dmidecode''\<rparr>"

section \<open>Properties\<close>

subsection \<open>What the patterns capture\<close>

lemma backtrack_Some:
  "backtrack f n = Some r \<Longrightarrow> \<exists>k. 0 < k \<and> k \<le> n \<and> f k = Some r"
proof (induction n)
  case 0
  then show ?case by simp
next
  case (Suc n)
  show ?case
  proof (cases "f (Suc n)")
    case None
    with Suc obtain k where "0 < k" "k \<le> n" "f k = Some r" by auto
    then show ?thesis by (intro exI [of _ k]) simp
  next
    case (Some a)
    with Suc.prems show ?thesis by (intro exI [of _ "Suc n"]) simp
  qed
qed

lemma take_run:
  assumes "0 < n" "n \<le> length (takeWhile (in_cls k) s)"
  shows "run_of k (take n s)"
proof -
  have "take n s = take n (takeWhile (in_cls k) s)"
    using assms(2) by (metis takeWhile_dropWhile_id take_append diff_is_0_eq' take_0 append_Nil2)
  moreover have "list_all (in_cls k) (take n (takeWhile (in_cls k) s))"
    by (metis list_all_iff in_set_takeD set_takeWhileD)
  moreover have "take n s \<noteq> []" using assms by auto
  ultimately show ?thesis by (simp add: run_of_def)
qed

lemma match_here_groups:
  "match_here is s = Some (gs, r) \<Longrightarrow> list_all2 run_of (cap_classes is) gs"
proof (induction "is" s arbitrary: gs r rule: match_here.induct)
  case (1 s)
  then show ?case by simp
next
  case (2 c "is" s)
  then show ?case by (auto split: list.splits if_splits)
next
  case (3 "is" s)
  then show ?case by (auto split: if_splits)
next
  case (4 k "is" s)
  from 4(2) obtain n where "match_here is (drop n s) = Some (gs, r)"
    by (auto dest!: backtrack_Some)
  with 4(1) show ?case by simp
next
  case (5 k "is" s)
  from 5(2) obtain n where n: "0 < n" "n \<le> length (takeWhile (in_cls k) s)"
    and m: "(case match_here is (drop n s) of
               None \<Rightarrow> None
             | Some (gs, r) \<Rightarrow> Some (take n s # gs, r)) = Some (gs, r)"
    by (auto dest!: backtrack_Some)
  from m obtain gs' where gs': "match_here is (drop n s) = Some (gs', r)" "gs = take n s # gs'"
    by (auto split: option.splits)
  from 5(1) gs'(1) have "list_all2 run_of (cap_classes is) gs'" by simp
  with n gs'(2) show ?case by (simp add: take_run)
qed

lemma leftmost_groups:
  "leftmost is s \<noteq> [] \<Longrightarrow> list_all2 run_of (cap_classes is) (tl (leftmost is s))"
  by (induction "is" s rule: leftmost.induct)
     (auto simp: submatches_def split: option.splits dest: match_here_groups)

lemma FindStringSubmatch_groups:
  "FindStringSubmatch (Regexp a is) s \<noteq> [] \<Longrightarrow>
   list_all2 run_of (cap_classes is) (tl (FindStringSubmatch (Regexp a is) s))"
  by (auto simp: submatches_def leftmost_groups split: option.splits dest: match_here_groups)

lemma handleData_shape:
  assumes "FindStringSubmatch handleRegex s \<noteq> []"
  shows "length (FindStringSubmatch handleRegex s) = 4 \<and>
         run_of Digit (FindStringSubmatch handleRegex s ! 2) \<and>
         run_of Digit (FindStringSubmatch handleRegex s ! 3)"
proof -
  let ?hd = "FindStringSubmatch handleRegex s"
  obtain "is" where re: "handleRegex = Regexp True is" "cap_classes is = [Dot, Digit, Digit]"
    by (simp add: handleRegex_def)
  have "list_all2 run_of [Dot, Digit, Digit] (tl ?hd)"
    using FindStringSubmatch_groups [of True "is" s] assms unfolding re by simp
  then obtain h t z where "tl ?hd = [h, t, z]" "run_of Digit t" "run_of Digit z"
    by (auto simp: list_all2_Cons1)
  with assms show ?thesis by (cases ?hd) auto
qed

subsection \<open>The loops of the parser\<close>

lemma scan_fmdom: "fmdom r |\<subseteq>| fmdom (scan r el bl ls)"
proof (induction ls arbitrary: r el bl)
  case Nil
  then show ?case by simp
next
  case (Cons line rest)
  have step: "fmdom (fmupd k v r) |\<subseteq>| fmdom (scan (fmupd k v r) el' bl' rest) \<Longrightarrow>
              fmdom r |\<subseteq>| fmdom (scan (fmupd k v r) el' bl' rest)" for k v el' bl'
    by auto
  show ?case
    by (simp add: Let_def del: FindStringSubmatch.simps) (auto intro!: step Cons.IH)
qed

lemma scan_keeps:
  "el = [] \<or> el \<noteq> k \<Longrightarrow> \<forall>l\<in>set ls. \<not> names_key l k \<Longrightarrow>
   fmlookup (scan r el bl ls) k = fmlookup r k"
proof (induction ls arbitrary: r el bl)
  case Nil
  then show ?case by simp
next
  case (Cons line rest)
  from Cons.prems(2) have nk: "\<not> names_key line k"
    and rest: "\<forall>l\<in>set rest. \<not> names_key l k"
    by simp_all
  have IH: "fmlookup (scan r' el' bl' rest) k = fmlookup r' k"
    if "el' = [] \<or> el' \<noteq> k" for r' el' bl'
    using Cons.IH [OF that rest] .
  from nk have k1: "FindStringSubmatch recordRegex line \<noteq> [] \<Longrightarrow>
                     FindStringSubmatch recordRegex line ! 1 \<noteq> k"
    and k2: "FindStringSubmatch recordRegex2 line \<noteq> [] \<Longrightarrow>
             FindStringSubmatch recordRegex2 line ! 1 \<noteq> k"
    by (auto simp: names_key_def Let_def simp del: FindStringSubmatch.simps)
  show ?case
    using Cons.prems(1) k1 k2
    by (auto simp add: Let_def IH simp del: FindStringSubmatch.simps)
qed

lemma process_record_block_entry:
  "process_record d rec =
     (case block_entry rec of
        None \<Rightarrow> Inr d
      | Some (h, r) \<Rightarrow>
          (case Data d of
             None \<Rightarrow> Inl AssignmentToEntryInNilMap
           | Some m \<Rightarrow> Inr (d\<lparr>Data := Some (fmupd h r m)\<rparr>)))"
  by (simp add: process_record_def block_entry_def Let_def split: option.splits
        del: FindStringSubmatch.simps)

lemma records_loop_entries_of:
  "Data d = Some m \<Longrightarrow> records_loop d recs = Inr (d\<lparr>Data := Some (entries_of recs m)\<rparr>)"
proof (induction recs arbitrary: d m)
  case Nil
  then show ?case by simp
next
  case (Cons rec rest)
  show ?case
  proof (cases "block_entry rec")
    case None
    with Cons show ?thesis by (simp add: process_record_block_entry)
  next
    case (Some hr)
    obtain h r where hr: "hr = (h, r)" by (cases hr)
    have "Data (d\<lparr>Data := Some (fmupd h r m)\<rparr>) = Some (fmupd h r m)" by simp
    from Cons.IH [OF this] Cons.prems Some hr show ?thesis
      by (simp add: process_record_block_entry)
  qed
qed

lemma entries_of_add: "entries_of recs m = m ++\<^sub>f entries_of recs fmempty"
proof (induction recs arbitrary: m)
  case Nil
  then show ?case by simp
next
  case (Cons rec rest)
  show ?case
  proof (cases "block_entry rec")
    case None
    with Cons.IH [of m] show ?thesis by simp
  next
    case (Some hr)
    obtain h r where hr: "hr = (h, r)" by (cases hr)
    have "entries_of rest (fmupd h r m) = fmupd h r m ++\<^sub>f entries_of rest fmempty"
      by (rule Cons.IH)
    also have "\<dots> = m ++\<^sub>f (fmupd h r fmempty ++\<^sub>f entries_of rest fmempty)"
      by simp
    also have "fmupd h r fmempty ++\<^sub>f entries_of rest fmempty =
               entries_of rest (fmupd h r fmempty)"
      by (rule Cons.IH [symmetric])
    finally show ?thesis using Some hr by simp
  qed
qed

lemma records_loop_nil:
  "Data d = None \<Longrightarrow>
   records_loop d recs =
     (if \<forall>rec\<in>set recs. block_entry rec = None then Inr d
      else Inl AssignmentToEntryInNilMap)"
  by (induction recs) (auto simp: process_record_block_entry split: option.splits)

lemma entries_of_append: "entries_of (xs @ ys) t = entries_of ys (entries_of xs t)"
  by (induction xs arbitrary: t) simp_all

lemma entries_of_other:
  "\<forall>rec\<in>set recs. \<forall>r. block_entry rec \<noteq> Some (h, r) \<Longrightarrow>
   fmlookup (entries_of recs t) h = fmlookup t h"
proof (induction recs arbitrary: t)
  case Nil
  then show ?case by simp
next
  case (Cons rec rest)
  then have IH: "fmlookup (entries_of rest t') h = fmlookup t' h" for t' by simp
  from Cons.prems have "\<forall>r. block_entry rec \<noteq> Some (h, r)" by simp
  then show ?case by (auto simp: IH split: option.splits)
qed

lemma process_record_New:
  "process_record New rec = Inr d' \<Longrightarrow>
   entry d' h = (case block_entry rec of None \<Rightarrow> None
                 | Some (h', r) \<Rightarrow> if h' = h then Some r else None)"
  by (auto simp: process_record_block_entry New_def entry_def split: option.splits)

lemma process_record_New_total: "\<exists>d'. process_record New rec = Inr d'"
  by (auto simp: process_record_block_entry New_def split: option.splits)

lemma fmdom_empty_iff: "fmdom t = {||} \<longleftrightarrow> t = fmempty"
proof
  assume "fmdom t = {||}"
  then have "fmlookup t x = None" for x by (simp add: fmdom_notD)
  then show "t = fmempty" by (intro fmap_ext) simp
qed simp

lemma ParseDmidecode_entries_of:
  "Data d = Some m \<Longrightarrow>
   ParseDmidecode d output =
     Inr (d\<lparr>Data := Some (entries_of (Split output [NL, NL]) m)\<rparr>,
          if entries_of (Split output [NL, NL]) m = fmempty then Some UnableToParse else None)"
  by (simp add: ParseDmidecode_def records_loop_entries_of fmdom_empty_iff) 

lemma entries_of_last:
  assumes "recs = before @ rec # after" and "block_entry rec = Some (h, r)"
    and "\<forall>rec'\<in>set after. \<forall>r'. block_entry rec' \<noteq> Some (h, r')"
  shows "fmlookup (entries_of recs t) h = Some r"
proof -
  have "fmlookup (entries_of recs t) h =
        fmlookup (entries_of after (fmupd h r (entries_of before t))) h"
    using assms(1,2) by (simp add: entries_of_append)
  also have "\<dots> = Some r" using assms(3) by (simp add: entries_of_other)
  finally show ?thesis .
qed

lemma ParseDmidecode_nil:
  assumes "Data d = None" and "ParseDmidecode d output = Inr (d', e)"
  shows "d' = d \<and> (\<forall>rec\<in>set (Split output [NL, NL]). block_entry rec = None)"
  using assms by (auto simp: ParseDmidecode_def records_loop_nil split: if_splits)

lemma ParseDmidecode_table:
  assumes "ParseDmidecode d output = Inr (d', e)"
  shows "entry d' h =
         (case Data d of None \<Rightarrow> None
          | Some m \<Rightarrow> fmlookup (entries_of (Split output [NL, NL]) m) h)"
proof (cases "Data d")
  case None
  with assms have "d' = d" by (simp add: ParseDmidecode_nil)
  with None show ?thesis by (simp add: entry_def)
next
  case (Some m)
  with assms have "d' = d\<lparr>Data := Some (entries_of (Split output [NL, NL]) m)\<rparr>"
    by (simp add: ParseDmidecode_entries_of)
  with Some show ?thesis by (simp add: entry_def)
qed

lemma block_entry_Some:
  "block_entry rec = Some (h, r) \<longleftrightarrow>
     3 \<le> length (Split rec [NL]) \<and>
     FindStringSubmatch handleRegex (Split rec [NL] ! 0) \<noteq> [] \<and>
     h = FindStringSubmatch handleRegex (Split rec [NL] ! 0) ! 1 \<and>
     r = scan (fmupd ''DMIName'' (Split rec [NL] ! 1)
                (fmupd ''DMISize'' (FindStringSubmatch handleRegex (Split rec [NL] ! 0) ! 3)
                  (fmupd ''DMIType'' (FindStringSubmatch handleRegex (Split rec [NL] ! 0) ! 2)
                     fmempty)))
           [] [] (drop 2 (Split rec [NL]))"
  by (auto simp add: block_entry_def Let_def simp del: FindStringSubmatch.simps)

lemma block_entry_has_reserved:
  assumes "block_entry rec = Some (h, r)"
  shows "has_reserved r"
proof -
  from assms obtain seed where r: "r = scan seed [] [] (drop 2 (Split rec [NL]))"
    and seed: "''DMIType'' |\<in>| fmdom seed" "''DMISize'' |\<in>| fmdom seed"
      "''DMIName'' |\<in>| fmdom seed"
    by (auto simp add: block_entry_Some simp del: FindStringSubmatch.simps)
  have "fmdom seed |\<subseteq>| fmdom r" unfolding r by (rule scan_fmdom)
  with seed show ?thesis unfolding has_reserved_def by blast
qed

lemma block_entry_reserved_value:
  assumes "block_entry rec = Some (h, r)"
    and "\<forall>line\<in>set (drop 2 (Split rec [NL])). \<not> names_key line k"
  shows "fmlookup r k =
         fmlookup (fmupd ''DMIName'' (Split rec [NL] ! 1)
                (fmupd ''DMISize'' (FindStringSubmatch handleRegex (Split rec [NL] ! 0) ! 3)
                  (fmupd ''DMIType'' (FindStringSubmatch handleRegex (Split rec [NL] ! 0) ! 2)
                     fmempty))) k"
  using assms
  by (simp add: block_entry_Some scan_keeps del: FindStringSubmatch.simps fmupd_lookup)

lemma block_entry_type_digits:
  assumes "block_entry rec = Some (h, r)"
    and "\<forall>line\<in>set (drop 2 (Split rec [NL])). \<not> names_key line ''DMIType''"
  shows "run_of Digit (index r ''DMIType'')"
proof -
  let ?hd = "FindStringSubmatch handleRegex (Split rec [NL] ! 0)"
  from assms(1) have "?hd \<noteq> []" by (simp add: block_entry_Some del: FindStringSubmatch.simps)
  then have "run_of Digit (?hd ! 2)" using handleData_shape by blast
  moreover from assms have "fmlookup r ''DMIType'' = Some (?hd ! 2)"
    by (simp add: block_entry_reserved_value del: FindStringSubmatch.simps)
  ultimately show ?thesis by (simp add: index_def)
qed

lemma block_entry_size_digits:
  assumes "block_entry rec = Some (h, r)"
    and "\<forall>line\<in>set (drop 2 (Split rec [NL])). \<not> names_key line ''DMISize''"
  shows "run_of Digit (index r ''DMISize'')"
proof -
  let ?hd = "FindStringSubmatch handleRegex (Split rec [NL] ! 0)"
  from assms(1) have "?hd \<noteq> []" by (simp add: block_entry_Some del: FindStringSubmatch.simps)
  then have "run_of Digit (?hd ! 3)" using handleData_shape by blast
  moreover from assms have "fmlookup r ''DMISize'' = Some (?hd ! 3)"
    by (simp add: block_entry_reserved_value del: FindStringSubmatch.simps)
  ultimately show ?thesis by (simp add: index_def)
qed

lemma entries_of_invariant:
  assumes "\<forall>h r. fmlookup t h = Some r \<longrightarrow> P r"
    and "\<forall>rec\<in>set recs. \<forall>h r. block_entry rec = Some (h, r) \<longrightarrow> P r"
  shows "\<forall>h r. fmlookup (entries_of recs t) h = Some r \<longrightarrow> P r"
  using assms
proof (induction recs arbitrary: t)
  case Nil
  then show ?case by simp
next
  case (Cons rec rest)
  let ?t = "case block_entry rec of None \<Rightarrow> t | Some (h, r) \<Rightarrow> fmupd h r t"
  have "\<forall>h r. fmlookup ?t h = Some r \<longrightarrow> P r"
    using Cons.prems by (auto split: option.splits if_splits)
  moreover have "\<forall>rec\<in>set rest. \<forall>h r. block_entry rec = Some (h, r) \<longrightarrow> P r"
    using Cons.prems(2) by simp
  ultimately have "\<forall>h r. fmlookup (entries_of rest ?t) h = Some r \<longrightarrow> P r"
    by (rule Cons.IH)
  then show ?case by simp
qed

lemma ParseDmidecode_invariant:
  assumes "ParseDmidecode d output = Inr (d', e)" and "entry d' h = Some r"
    and "\<forall>h r. entry d h = Some r \<longrightarrow> P r"
    and "\<forall>rec\<in>set (Split output [NL, NL]). \<forall>h r. block_entry rec = Some (h, r) \<longrightarrow> P r"
  shows "P r"
proof (cases "Data d")
  case None
  with assms(1) have "d' = d"
    by (auto simp: ParseDmidecode_def records_loop_nil split: if_splits)
  with assms(2,3) show ?thesis by blast
next
  case (Some m)
  with assms(1) have "d' = d\<lparr>Data := Some (entries_of (Split output [NL, NL]) m)\<rparr>"
    by (simp add: ParseDmidecode_entries_of)
  with assms(2) have "fmlookup (entries_of (Split output [NL, NL]) m) h = Some r"
    by (simp add: entry_def)
  moreover from assms(3) Some have "\<forall>h r. fmlookup m h = Some r \<longrightarrow> P r"
    by (simp add: entry_def)
  ultimately show ?thesis
    using entries_of_invariant [of m P "Split output [NL, NL]"] assms(4) by blast
qed

lemma entries_of_fmdom: "fmdom t |\<subseteq>| fmdom (entries_of recs t)"
proof (induction recs arbitrary: t)
  case Nil
  then show ?case by simp
next
  case (Cons rec rest)
  let ?t = "case block_entry rec of None \<Rightarrow> t | Some (h, r) \<Rightarrow> fmupd h r t"
  have "fmdom t |\<subseteq>| fmdom ?t" by (auto split: option.splits)
  also have "fmdom ?t |\<subseteq>| fmdom (entries_of rest ?t)" by (rule Cons.IH)
  finally show ?case by simp
qed

lemma entries_of_member:
  "rec \<in> set recs \<Longrightarrow> block_entry rec = Some (h, r) \<Longrightarrow> h |\<in>| fmdom (entries_of recs t)"
proof (induction recs arbitrary: t)
  case Nil
  then show ?case by simp
next
  case (Cons rec' rest)
  show ?case
  proof (cases "rec' = rec")
    case True
    have "h |\<in>| fmdom (fmupd h r t)" by simp
    then have "h |\<in>| fmdom (entries_of rest (fmupd h r t))"
      using entries_of_fmdom [of "fmupd h r t" rest] by blast
    with True Cons.prems(2) show ?thesis by simp
  next
    case False
    with Cons.prems have "rec \<in> set rest" by simp
    from Cons.IH [OF this Cons.prems(2)] show ?thesis by simp
  qed
qed

lemma records_loop_filter:
  "records_loop d (filter (\<lambda>rec. \<not> length (Split rec [NL]) < 3) recs) = records_loop d recs"
proof (induction recs arbitrary: d)
  case Nil
  then show ?case by simp
next
  case (Cons rec rest)
  show ?case
  proof (cases "length (Split rec [NL]) < 3")
    case True
    then have "process_record d rec = Inr d" by (simp add: process_record_def)
    with True Cons show ?thesis by simp
  next
    case False
    with Cons show ?thesis by (simp split: sum.splits)
  qed
qed

lemma records_loop_skip:
  "\<forall>rec\<in>set recs. block_entry rec = None \<Longrightarrow> records_loop d recs = Inr d"
  by (induction recs) (simp_all add: process_record_block_entry)

lemma block_entry_None:
  "length (Split rec [NL]) < 3 \<or> FindStringSubmatch handleRegex (Split rec [NL] ! 0) = [] \<Longrightarrow>
   block_entry rec = None"
  by (auto simp add: block_entry_def Let_def simp del: FindStringSubmatch.simps)


subsection \<open>The queries read the table\<close>

lemma set_map_filter:
  "set (List.map_filter f xs) = {y. \<exists>x\<in>set xs. f x = Some y}"
  by (induction xs) (auto split: option.splits)

lemma range_values_set:
  "range_order (Data d) order \<Longrightarrow>
   set (range_values (Data d) order) = {v. \<exists>h. entry d h = Some v}"
proof (cases "Data d")
  case None
  then show ?thesis by (simp add: entry_def)
next
  case (Some m)
  assume "range_order (Data d) order"
  with Some have "fset_of_list order = fmdom m" by (simp add: range_order_def)
  then have mem: "h \<in> set order \<longleftrightarrow> fmlookup m h \<noteq> None" for h
    by (metis fmdomI fmdom_notI fset_of_list_elem option.exhaust)
  show ?thesis
    using Some by (auto simp: entry_def set_map_filter mem)
qed

lemma index_eq_iff: "val \<noteq> [] \<Longrightarrow> index v param = val \<longleftrightarrow> fmlookup v param = Some val"
  by (auto simp: index_def split: option.splits)

subsection \<open>A run of continuation lines\<close>

lemma inBlockData_nonempty:
  assumes "FindStringSubmatch inBlockRegex line \<noteq> []"
  shows "FindStringSubmatch inBlockRegex line ! 1 \<noteq> []"
proof -
  let ?m = "FindStringSubmatch inBlockRegex line"
  obtain "is" where re: "inBlockRegex = Regexp True is" "cap_classes is = [Dot]"
    by (simp add: inBlockRegex_def)
  have "list_all2 run_of [Dot] (tl ?m)"
    using FindStringSubmatch_groups [of True "is" line] assms unfolding re by simp
  then obtain g where "tl ?m = [g]" "run_of Dot g" by (auto simp: list_all2_Cons1)
  with assms show ?thesis by (cases ?m) (auto simp: run_of_def)
qed

lemma join_tabs_snoc:
  "fs \<noteq> [] \<Longrightarrow> join_tabs (fs @ [f]) = join_tabs fs @ [TAB, TAB] @ f"
  by (induction fs rule: join_tabs.induct) simp_all

lemma join_tabs_nonempty: "fs \<noteq> [] \<Longrightarrow> \<forall>f\<in>set fs. f \<noteq> [] \<Longrightarrow> join_tabs fs \<noteq> []"
  by (induction fs rule: join_tabs.induct) simp_all

lemma scan_run:
  assumes "el \<noteq> []" and "\<forall>line\<in>set ls. FindStringSubmatch inBlockRegex line \<noteq> []"
    and "ls \<noteq> []" and "\<forall>f\<in>set pre. f \<noteq> []" and "bl = join_tabs pre"
  shows "scan r el bl (ls @ rest) =
         scan (fmupd el (join_tabs (pre @ fragments ls)) r) el
              (join_tabs (pre @ fragments ls)) rest"
  using assms
proof (induction ls arbitrary: r bl pre)
  case Nil
  then show ?case by simp
next
  case (Cons line ls)
  let ?f = "FindStringSubmatch inBlockRegex line ! 1"
  let ?bl = "join_tabs (pre @ [?f])"
  from Cons.prems have m: "FindStringSubmatch inBlockRegex line \<noteq> []" by simp
  then have f: "?f \<noteq> []" by (rule inBlockData_nonempty)
  have bl': "(if length bl = 0 then ?f else bl @ [TAB, TAB] @ ?f) = ?bl"
  proof (cases "pre = []")
    case True
    with Cons.prems(5) show ?thesis by simp
  next
    case False
    with Cons.prems(4,5) have "bl \<noteq> []" by (simp add: join_tabs_nonempty)
    with False Cons.prems(5) show ?thesis by (simp add: join_tabs_snoc)
  qed
  have step: "scan r el bl ((line # ls) @ rest) = scan (fmupd el ?bl r) el ?bl (ls @ rest)"
    using Cons.prems(1) m bl' by (simp add: Let_def del: FindStringSubmatch.simps)
  show ?case
  proof (cases "ls = []")
    case True
    with step show ?thesis by (simp add: fragments_def del: FindStringSubmatch.simps)
  next
    case False
    have "scan (fmupd el ?bl r) el ?bl (ls @ rest) =
          scan (fmupd el (join_tabs ((pre @ [?f]) @ fragments ls)) (fmupd el ?bl r)) el
               (join_tabs ((pre @ [?f]) @ fragments ls)) rest"
      using Cons.prems(1,2,4) f False
      by (intro Cons.IH) (simp_all del: FindStringSubmatch.simps)
    with step show ?thesis by (simp add: fragments_def del: FindStringSubmatch.simps)
  qed
qed

subsection \<open>Evaluation\<close>

text \<open>The equations that evaluate a parse of a given text.\<close>

lemmas parse_eval =
  ParseDmidecode_def Split_def process_record_def handleRegex_def inBlockRegex_def
  recordRegex_def recordRegex2_def submatches_def New_def DMIDecodeBinary_def
  fcard_finsert_if

section \<open>The claims\<close>

subsection \<open>C1: the value of a continuation attribute\<close>

text \<open>
  Claim C1 says that every continuation attribute starts from an empty accumulator, so
  that the value stored under its key is its own fragments joined by two tabs. The code
  empties \<^verbatim>\<open>inBlockList\<close> once per record (source line 112) and not when a continuation
  ends (line 132 resets \<^verbatim>\<open>inBlockElement\<close> only), so the second continuation attribute
  of a record also holds the fragments of the first: here \<^verbatim>\<open>Characteristics\<close> is stored
  as \<^verbatim>\<open>"FPU\t\tVME\t\t64-bit capable"\<close> where the claim says \<^verbatim>\<open>"64-bit capable"\<close>.
\<close>

theorem second_array_holds_first_fragments:
  "ParseDmidecode New
     (''Handle 0x0004, DMI type 4, 42 bytes'' @ [NL] @ ''Processor Information'' @
      [NL, TAB] @ ''Flags:'' @ [NL, TAB, TAB] @ ''FPU'' @ [NL, TAB, TAB] @ ''VME'' @
      [NL, TAB] @ ''Characteristics:'' @ [NL, TAB, TAB] @ ''64-bit capable'') =
   Inr (tabled (fmupd ''0x0004''
           (fmupd ''Characteristics''
              (''FPU'' @ [TAB, TAB] @ ''VME'' @ [TAB, TAB] @ ''64-bit capable'')
             (fmupd ''Flags'' (''FPU'' @ [TAB, TAB] @ ''VME'')
               (fmupd ''DMIName'' ''Processor Information''
                 (fmupd ''DMISize'' ''42'' (fmupd ''DMIType'' ''4'' fmempty))))) fmempty),
        None)"
  by (simp add: parse_eval)

subsection \<open>C2: a parse on a table that holds records\<close>

text \<open>
  Claim C2 says that a parse makes the table afresh. The code makes a table in \<^verbatim>\<open>New\<close>
  and nowhere else: \<^verbatim>\<open>ParseDmidecode\<close> assigns to entries of the table it finds in
  \<^verbatim>\<open>d.Data\<close>.
  After the parse of a record with the handle \<^verbatim>\<open>0x0001\<close> and then, on the same value, of a
  record with the handle \<^verbatim>\<open>0x0002\<close>, the table holds both, though the second text has
  no \<^verbatim>\<open>0x0001\<close> and its parse on \<^verbatim>\<open>New\<close> gives a table without it.
\<close>

theorem earlier_records_survive:
  "ParseDmidecode New system_block = Inr (tabled (fmupd ''0x0001'' system_attrs fmempty), None) \<and>
   ParseDmidecode (tabled (fmupd ''0x0001'' system_attrs fmempty)) board_block =
     Inr (tabled (fmupd ''0x0002'' board_attrs (fmupd ''0x0001'' system_attrs fmempty)), None) \<and>
   ParseDmidecode New board_block = Inr (tabled (fmupd ''0x0002'' board_attrs fmempty), None) \<and>
   entry (tabled (fmupd ''0x0002'' board_attrs (fmupd ''0x0001'' system_attrs fmempty)))
     ''0x0001'' = Some system_attrs \<and>
   entry (tabled (fmupd ''0x0002'' board_attrs fmempty)) ''0x0001'' = None"
  by (simp add: parse_eval entry_def)

text \<open>
  Claim C2, amended. \<^verbatim>\<open>ParseDmidecode\<close> writes into the table its \<^verbatim>\<open>DMI\<close> value has. On
  a value whose table is \<open>m\<close> the parse returns, and the table after it is \<open>m\<close>
  overwritten by the entries of the blocks of the text, \<open>block_entry\<close> being what the
  loop body reads from one block: a handle no block of the text gives an entry for
  keeps what \<open>m\<close> has for it, and a handle some block gives an entry for holds the
  record of the last such block, whatever \<open>m\<close> has for it. The error is returned exactly
  when that table is empty.
\<close>

theorem parse_writes_into_table:
  assumes "Data d = Some m"
  shows "\<exists>t'. ParseDmidecode d output =
                Inr (d\<lparr>Data := Some t'\<rparr>, if t' = fmempty then Some UnableToParse else None) \<and>
           t' = m ++\<^sub>f entries_of (Split output [NL, NL]) fmempty \<and>
           (\<forall>h. (\<forall>rec\<in>set (Split output [NL, NL]). \<forall>r. block_entry rec \<noteq> Some (h, r)) \<longrightarrow>
                fmlookup t' h = fmlookup m h) \<and>
           (\<forall>before rec after h r.
              Split output [NL, NL] = before @ rec # after \<and> block_entry rec = Some (h, r) \<and>
              (\<forall>rec'\<in>set after. \<forall>r'. block_entry rec' \<noteq> Some (h, r')) \<longrightarrow>
                fmlookup t' h = Some r)"
proof -
  let ?recs = "Split output [NL, NL]"
  have "ParseDmidecode d output =
          Inr (d\<lparr>Data := Some (entries_of ?recs m)\<rparr>,
               if entries_of ?recs m = fmempty then Some UnableToParse else None)"
    using assms by (rule ParseDmidecode_entries_of)
  moreover have "entries_of ?recs m = m ++\<^sub>f entries_of ?recs fmempty" by (rule entries_of_add)
  moreover have "\<forall>h. (\<forall>rec\<in>set ?recs. \<forall>r. block_entry rec \<noteq> Some (h, r)) \<longrightarrow>
                fmlookup (entries_of ?recs m) h = fmlookup m h"
    by (simp add: entries_of_other)
  moreover have "\<forall>before rec after h r.
              ?recs = before @ rec # after \<and> block_entry rec = Some (h, r) \<and>
              (\<forall>rec'\<in>set after. \<forall>r'. block_entry rec' \<noteq> Some (h, r')) \<longrightarrow>
                fmlookup (entries_of ?recs m) h = Some r"
    by (blast intro: entries_of_last)
  ultimately show ?thesis by blast
qed

text \<open>
  The second parse of the example above: the table before it holds \<^verbatim>\<open>0x0001\<close>, the one
  block of the text gives \<^verbatim>\<open>0x0002\<close>, the table after it holds both.
\<close>

theorem parse_writes_into_table_witness:
  "Split board_block [NL, NL] = [] @ board_block # [] \<and>
   block_entry board_block = Some (''0x0002'', board_attrs) \<and>
   (\<exists>t'. ParseDmidecode (tabled (fmupd ''0x0001'' system_attrs fmempty)) board_block =
            Inr (tabled t', None) \<and>
          fmlookup t' ''0x0001'' = Some system_attrs \<and>
          fmlookup t' ''0x0002'' = Some board_attrs)"
proof -
  let ?d = "tabled (fmupd ''0x0001'' system_attrs fmempty)"
  have blocks: "Split board_block [NL, NL] = [] @ board_block # []"
    by (simp add: Split_def)
  have board: "block_entry board_block = Some (''0x0002'', board_attrs)"
    by (simp add: block_entry_def parse_eval)
  have other: "\<forall>rec\<in>set (Split board_block [NL, NL]). \<forall>r. block_entry rec \<noteq> Some (''0x0001'', r)"
    by (simp add: block_entry_def parse_eval)
  have "Data ?d = Some (fmupd ''0x0001'' system_attrs fmempty)" by simp
  from parse_writes_into_table [OF this, of board_block]
  obtain t' where p: "ParseDmidecode ?d board_block =
        Inr (?d\<lparr>Data := Some t'\<rparr>, if t' = fmempty then Some UnableToParse else None)"
    and keep: "\<forall>h. (\<forall>rec\<in>set (Split board_block [NL, NL]).
                     \<forall>r. block_entry rec \<noteq> Some (h, r)) \<longrightarrow>
                fmlookup t' h = fmlookup (fmupd ''0x0001'' system_attrs fmempty) h"
    and last: "\<forall>before rec after h r.
              Split board_block [NL, NL] = before @ rec # after \<and>
              block_entry rec = Some (h, r) \<and>
              (\<forall>rec'\<in>set after. \<forall>r'. block_entry rec' \<noteq> Some (h, r')) \<longrightarrow>
                fmlookup t' h = Some r"
    by blast
  from keep other have k: "fmlookup t' ''0x0001'' = Some system_attrs" by simp
  from last blocks board have l: "fmlookup t' ''0x0002'' = Some board_attrs"
    by (metis empty_iff list.set(1))
  from l have "t' \<noteq> fmempty" by auto
  with p have "ParseDmidecode ?d board_block = Inr (tabled t', None)" by simp
  with k l blocks board show ?thesis by blast
qed

subsection \<open>C3: the header line\<close>

text \<open>
  Claim C3 takes the type label of the header for an arbitrary token and the three
  reserved attributes for what the header and line 1 give. The pattern of the code has
  the literal \<^verbatim>\<open>DMI\<close> for the label, so a block whose header has another label is
  skipped; and an attribute line whose key is a reserved name is stored over the seeded
  value, so the name attribute of the second block below is not its line 1.
\<close>

theorem other_label_no_entry:
  "FindStringSubmatch handleRegex ''Handle 0x0001, SMBIOS type 1, 27 bytes'' = [] \<and>
   length (Split (''Handle 0x0001, SMBIOS type 1, 27 bytes'' @ [NL] @ ''System Information'' @
                  [NL, TAB] @ ''Manufacturer: Acme'') [NL]) = 3 \<and>
   ParseDmidecode New
     (''Handle 0x0001, SMBIOS type 1, 27 bytes'' @ [NL] @ ''System Information'' @
      [NL, TAB] @ ''Manufacturer: Acme'') = Inr (New, Some UnableToParse) \<and>
   ParseDmidecode New
     (''Handle 0x0001, DMI type 1, 27 bytes'' @ [NL] @ ''System Information'' @
      [NL, TAB] @ ''DMIName: Other'') =
     Inr (tabled (fmupd ''0x0001''
            (fmupd ''DMIName'' ''Other''
              (fmupd ''DMISize'' ''27'' (fmupd ''DMIType'' ''1'' fmempty))) fmempty), None)"
  by (simp add: parse_eval)

text \<open>
  Claim C3, amended. For every block of at least 3 lines whose first line matches
  \<^verbatim>\<open>Handle <handle-token>, DMI type <digits>, <digits> bytes\<close>, with the literal label
  \<^verbatim>\<open>DMI\<close>, the loop body stores an entry under the handle; its type code and its byte
  size are the two digit groups and its name attribute is line 1 as it stands, each
  provided no line of the block after line 1 names that reserved key; and the table
  after the whole parse has an entry under the handle (a later block with the same
  handle may have replaced it, see C9). A block whose first line the pattern does not
  match leaves the \<^verbatim>\<open>DMI\<close> value as it is: no error and no entry.
\<close>

theorem header_block_entry:
  "(Data d = Some m \<and> 3 \<le> length (Split rec [NL]) \<and>
    FindStringSubmatch handleRegex (Split rec [NL] ! 0) \<noteq> [] \<longrightarrow>
      (\<exists>r. process_record d rec =
              Inr (d\<lparr>Data := Some
                (fmupd (FindStringSubmatch handleRegex (Split rec [NL] ! 0) ! 1) r m)\<rparr>) \<and>
           ((\<forall>line\<in>set (drop 2 (Split rec [NL])). \<not> names_key line ''DMIType'') \<longrightarrow>
              fmlookup r ''DMIType'' =
                Some (FindStringSubmatch handleRegex (Split rec [NL] ! 0) ! 2)) \<and>
           ((\<forall>line\<in>set (drop 2 (Split rec [NL])). \<not> names_key line ''DMISize'') \<longrightarrow>
              fmlookup r ''DMISize'' =
                Some (FindStringSubmatch handleRegex (Split rec [NL] ! 0) ! 3)) \<and>
           ((\<forall>line\<in>set (drop 2 (Split rec [NL])). \<not> names_key line ''DMIName'') \<longrightarrow>
              fmlookup r ''DMIName'' = Some (Split rec [NL] ! 1)))) \<and>
   (Data d = Some m \<and> rec \<in> set (Split output [NL, NL]) \<and> 3 \<le> length (Split rec [NL]) \<and>
    FindStringSubmatch handleRegex (Split rec [NL] ! 0) \<noteq> [] \<longrightarrow>
      (\<exists>d' r. ParseDmidecode d output = Inr (d', None) \<and>
              entry d' (FindStringSubmatch handleRegex (Split rec [NL] ! 0) ! 1) = Some r)) \<and>
   (FindStringSubmatch handleRegex (Split rec [NL] ! 0) = [] \<longrightarrow> process_record d rec = Inr d)"
proof (intro conjI impI)
  let ?hd = "FindStringSubmatch handleRegex (Split rec [NL] ! 0)"
  assume a: "Data d = Some m \<and> 3 \<le> length (Split rec [NL]) \<and> ?hd \<noteq> []"
  then obtain r where r: "block_entry rec = Some (?hd ! 1, r)"
    by (simp add: block_entry_Some del: FindStringSubmatch.simps)
  with a have "process_record d rec = Inr (d\<lparr>Data := Some (fmupd (?hd ! 1) r m)\<rparr>)"
    by (simp add: process_record_block_entry del: FindStringSubmatch.simps)
  moreover have "(\<forall>line\<in>set (drop 2 (Split rec [NL])). \<not> names_key line ''DMIType'') \<longrightarrow>
              fmlookup r ''DMIType'' = Some (?hd ! 2)"
    using block_entry_reserved_value [OF r, of "''DMIType''"] by simp
  moreover have "(\<forall>line\<in>set (drop 2 (Split rec [NL])). \<not> names_key line ''DMISize'') \<longrightarrow>
              fmlookup r ''DMISize'' = Some (?hd ! 3)"
    using block_entry_reserved_value [OF r, of "''DMISize''"] by simp
  moreover have "(\<forall>line\<in>set (drop 2 (Split rec [NL])). \<not> names_key line ''DMIName'') \<longrightarrow>
              fmlookup r ''DMIName'' = Some (Split rec [NL] ! 1)"
    using block_entry_reserved_value [OF r, of "''DMIName''"] by simp
  ultimately show
    "\<exists>r. process_record d rec = Inr (d\<lparr>Data := Some (fmupd (?hd ! 1) r m)\<rparr>) \<and>
           ((\<forall>line\<in>set (drop 2 (Split rec [NL])). \<not> names_key line ''DMIType'') \<longrightarrow>
              fmlookup r ''DMIType'' = Some (?hd ! 2)) \<and>
           ((\<forall>line\<in>set (drop 2 (Split rec [NL])). \<not> names_key line ''DMISize'') \<longrightarrow>
              fmlookup r ''DMISize'' = Some (?hd ! 3)) \<and>
           ((\<forall>line\<in>set (drop 2 (Split rec [NL])). \<not> names_key line ''DMIName'') \<longrightarrow>
              fmlookup r ''DMIName'' = Some (Split rec [NL] ! 1))"
    by blast
next
  let ?hd = "FindStringSubmatch handleRegex (Split rec [NL] ! 0)"
  let ?t = "entries_of (Split output [NL, NL]) m"
  assume a: "Data d = Some m \<and> rec \<in> set (Split output [NL, NL]) \<and>
    3 \<le> length (Split rec [NL]) \<and> ?hd \<noteq> []"
  then obtain r where r: "block_entry rec = Some (?hd ! 1, r)"
    by (simp add: block_entry_Some del: FindStringSubmatch.simps)
  with a have "?hd ! 1 |\<in>| fmdom ?t" by (blast intro: entries_of_member)
  then obtain r' where r': "fmlookup ?t (?hd ! 1) = Some r'" by auto
  then have "?t \<noteq> fmempty" by auto
  with a r' show "\<exists>d' r. ParseDmidecode d output = Inr (d', None) \<and> entry d' (?hd ! 1) = Some r"
    by (simp add: ParseDmidecode_entries_of entry_def del: FindStringSubmatch.simps)
next
  assume "FindStringSubmatch handleRegex (Split rec [NL] ! 0) = []"
  then show "process_record d rec = Inr d"
    by (simp add: process_record_def Let_def del: FindStringSubmatch.simps)
qed

text \<open>
  A block of three lines with the label \<^verbatim>\<open>DMI\<close>, alone and as the first of two blocks,
  and the block with the label \<^verbatim>\<open>SMBIOS\<close>.
\<close>

theorem header_block_entry_witness:
  "FindStringSubmatch handleRegex ''Handle 0x0001, DMI type 1, 27 bytes'' =
     [''Handle 0x0001, DMI type 1, 27 bytes'', ''0x0001'', ''1'', ''27''] \<and>
   Split system_block [NL] =
     [''Handle 0x0001, DMI type 1, 27 bytes'', ''System Information'',
      [TAB] @ ''Manufacturer: Acme''] \<and>
   \<not> names_key ([TAB] @ ''Manufacturer: Acme'') ''DMIType'' \<and>
   \<not> names_key ([TAB] @ ''Manufacturer: Acme'') ''DMISize'' \<and>
   \<not> names_key ([TAB] @ ''Manufacturer: Acme'') ''DMIName'' \<and>
   process_record New system_block = Inr (tabled (fmupd ''0x0001'' system_attrs fmempty)) \<and>
   Split (system_block @ [NL, NL] @ board_block) [NL, NL] = [system_block, board_block] \<and>
   ParseDmidecode New (system_block @ [NL, NL] @ board_block) =
     Inr (tabled (fmupd ''0x0002'' board_attrs (fmupd ''0x0001'' system_attrs fmempty)), None) \<and>
   FindStringSubmatch handleRegex ''Handle 0x0001, SMBIOS type 1, 27 bytes'' = [] \<and>
   process_record New
     (''Handle 0x0001, SMBIOS type 1, 27 bytes'' @ [NL] @ ''System Information'' @
      [NL, TAB] @ ''Manufacturer: Acme'') = Inr New"
  using header_block_entry
    [of New fmempty system_block "system_block @ [NL, NL] @ board_block"]
    header_block_entry
    [of New fmempty
        "''Handle 0x0001, SMBIOS type 1, 27 bytes'' @ [NL] @ ''System Information'' @
         [NL, TAB] @ ''Manufacturer: Acme''" "[]"]
  by (simp add: parse_eval names_key_def)

subsection \<open>C4: no matching header, no table\<close>

text \<open>
  Claim C4 says that the parse of the empty text, and of a text without a header line,
  returns the error. The test at source line 158 is on the table as it is after the loop,
  with the records it held before the parse: on a \<^verbatim>\<open>DMI\<close> value that has parsed a record,
  both parses return no error.
\<close>

theorem second_parse_no_error:
  "ParseDmidecode New system_block = Inr (tabled (fmupd ''0x0001'' system_attrs fmempty), None) \<and>
   ParseDmidecode (tabled (fmupd ''0x0001'' system_attrs fmempty)) [] =
     Inr (tabled (fmupd ''0x0001'' system_attrs fmempty), None) \<and>
   FindStringSubmatch handleRegex ''# dmidecode 3.3'' = [] \<and>
   ParseDmidecode (tabled (fmupd ''0x0001'' system_attrs fmempty))
     (''# dmidecode 3.3'' @ [NL] @ ''Getting SMBIOS data from sysfs.'' @ [NL] @
      ''SMBIOS 3.0 present.'') =
     Inr (tabled (fmupd ''0x0001'' system_attrs fmempty), None)"
  by (simp add: parse_eval)

text \<open>
  Claim C4, amended. The parse of the empty text, and of every input none of whose
  blocks of at least 3 lines starts with a line the header pattern matches, leaves the
  \<^verbatim>\<open>DMI\<close> value as it is; it returns the error when the table held no entry before the
  parse, as the table \<^verbatim>\<open>New\<close> makes, and no error when it held one. A parse that returns
  no error never leaves a table without entries.
\<close>

theorem no_header_no_table:
  "ParseDmidecode d [] = Inr (d, if len (Data d) = 0 then Some UnableToParse else None) \<and>
   ((\<forall>rec\<in>set (Split output [NL, NL]).
       length (Split rec [NL]) < 3 \<or>
       FindStringSubmatch handleRegex (Split rec [NL] ! 0) = []) \<longrightarrow>
    ParseDmidecode d output =
      Inr (d, if len (Data d) = 0 then Some UnableToParse else None)) \<and>
   (ParseDmidecode d output = Inr (d', None) \<longrightarrow> len (Data d') \<noteq> 0)"
proof (intro conjI impI)
  have "records_loop d (Split [] [NL, NL]) = Inr d"
    by (rule records_loop_skip) (simp add: Split_def block_entry_def)
  then show "ParseDmidecode d [] = Inr (d, if len (Data d) = 0 then Some UnableToParse else None)"
    by (simp add: ParseDmidecode_def)
next
  assume a: "\<forall>rec\<in>set (Split output [NL, NL]).
       length (Split rec [NL]) < 3 \<or>
       FindStringSubmatch handleRegex (Split rec [NL] ! 0) = []"
  then have "records_loop d (Split output [NL, NL]) = Inr d"
    by (intro records_loop_skip ballI block_entry_None) blast
  then show "ParseDmidecode d output =
      Inr (d, if len (Data d) = 0 then Some UnableToParse else None)"
    by (simp add: ParseDmidecode_def)
next
  assume "ParseDmidecode d output = Inr (d', None)"
  then show "len (Data d') \<noteq> 0"
    by (auto simp: ParseDmidecode_def split: sum.splits if_splits)
qed

text \<open>
  The three lines \<^verbatim>\<open>dmidecode\<close> prints before its first record are one block without
  a header: parsed on \<^verbatim>\<open>New\<close> and on a value that holds a record. A record of three
  lines gives a table of one entry.
\<close>

theorem no_header_no_table_witness:
  "len (Data New) = 0 \<and>
   ParseDmidecode New [] = Inr (New, Some UnableToParse) \<and>
   Split (''# dmidecode 3.3'' @ [NL] @ ''Getting SMBIOS data from sysfs.'' @ [NL] @
          ''SMBIOS 3.0 present.'') [NL, NL] =
     [''# dmidecode 3.3'' @ [NL] @ ''Getting SMBIOS data from sysfs.'' @ [NL] @
      ''SMBIOS 3.0 present.''] \<and>
   FindStringSubmatch handleRegex ''# dmidecode 3.3'' = [] \<and>
   ParseDmidecode New
     (''# dmidecode 3.3'' @ [NL] @ ''Getting SMBIOS data from sysfs.'' @ [NL] @
      ''SMBIOS 3.0 present.'') = Inr (New, Some UnableToParse) \<and>
   len (Data (tabled (fmupd ''0x0001'' system_attrs fmempty))) = 1 \<and>
   ParseDmidecode (tabled (fmupd ''0x0001'' system_attrs fmempty))
     (''# dmidecode 3.3'' @ [NL] @ ''Getting SMBIOS data from sysfs.'' @ [NL] @
      ''SMBIOS 3.0 present.'') =
     Inr (tabled (fmupd ''0x0001'' system_attrs fmempty), None) \<and>
   ParseDmidecode New system_block = Inr (tabled (fmupd ''0x0001'' system_attrs fmempty), None)"
  using no_header_no_table
    [of New "''# dmidecode 3.3'' @ [NL] @ ''Getting SMBIOS data from sysfs.'' @ [NL] @
             ''SMBIOS 3.0 present.''" New]
    no_header_no_table
    [of "tabled (fmupd ''0x0001'' system_attrs fmempty)"
        "''# dmidecode 3.3'' @ [NL] @ ''Getting SMBIOS data from sysfs.'' @ [NL] @
         ''SMBIOS 3.0 present.''" New]
    no_header_no_table
    [of New system_block "tabled (fmupd ''0x0001'' system_attrs fmempty)"]
  by (simp add: parse_eval)

subsection \<open>C5: what a query returns\<close>

text \<open>
  Claim C5, as stated, takes a record to match when it holds the attribute with the given
  value. The code compares \<^verbatim>\<open>v[param]\<close>, which is the empty string for an attribute the
  record does not hold, so a query for the empty string returns a record that lacks the
  attribute although no record holds the attribute with that value. The table below is
  the one the parse of a record of three lines builds.
\<close>

theorem search_absent_attribute:
  "ParseDmidecode New system_block = Inr (tabled (fmupd ''0x0001'' system_attrs fmempty), None) \<and>
   fmlookup system_attrs ''Serial Number'' = None \<and>
   GenericSearchBy (tabled (fmupd ''0x0001'' system_attrs fmempty)) [''0x0001'']
     ''Serial Number'' [] =
     (tabled (fmupd ''0x0001'' system_attrs fmempty), Some system_attrs, None)"
  by (simp add: parse_eval GenericSearchBy_def index_def)

text \<open>
  Claim C5, amended. \<^verbatim>\<open>GenericSearchBy\<close> returns the error exactly when the table has no
  entry. On a table with entries, whatever the order in which \<^verbatim>\<open>range\<close> visits them:
  when \<^verbatim>\<open>v[param]\<close>, the attribute read as the empty string where the record does not
  hold it, is the given value for no record, the result is an empty map and no error;
  when it is for at least one record, the result is such a record and no error. For a
  value that is not empty, \<^verbatim>\<open>v[param]\<close> is the value exactly when the record holds the
  attribute with that value. \<^verbatim>\<open>SearchByName\<close> and \<^verbatim>\<open>SearchByType\<close> are \<^verbatim>\<open>GenericSearchBy\<close>
  on the name and on the type attribute.
\<close>

theorem search_results:
  "(snd (snd (GenericSearchBy d order param val)) = Some DataIsEmpty \<longleftrightarrow> len (Data d) = 0) \<and>
   (len (Data d) \<noteq> 0 \<and> range_order (Data d) order \<and>
    (\<forall>h v. entry d h = Some v \<longrightarrow> index v param \<noteq> val) \<longrightarrow>
      GenericSearchBy d order param val = (d, Some fmempty, None)) \<and>
   (len (Data d) \<noteq> 0 \<and> range_order (Data d) order \<and>
    (\<exists>h v. entry d h = Some v \<and> index v param = val) \<longrightarrow>
      (\<exists>h v. entry d h = Some v \<and> index v param = val \<and>
             GenericSearchBy d order param val = (d, Some v, None))) \<and>
   (val \<noteq> [] \<longrightarrow> (index v param = val) = (fmlookup v param = Some val)) \<and>
   SearchByName d order name = GenericSearchBy d order ''DMIName'' name \<and>
   SearchByType d order i = GenericSearchBy d order ''DMIType'' (Itoa i)"
proof (intro conjI impI)
  show "snd (snd (GenericSearchBy d order param val)) = Some DataIsEmpty \<longleftrightarrow> len (Data d) = 0"
    by (simp add: GenericSearchBy_def split: option.splits)
next
  assume a: "len (Data d) \<noteq> 0 \<and> range_order (Data d) order \<and>
    (\<forall>h v. entry d h = Some v \<longrightarrow> index v param \<noteq> val)"
  then have "\<forall>v\<in>set (range_values (Data d) order). index v param \<noteq> val"
    by (auto simp: range_values_set)
  then have "List.find (\<lambda>v. index v param = val) (range_values (Data d) order) = None"
    by (simp add: find_None_iff)
  with a show "GenericSearchBy d order param val = (d, Some fmempty, None)"
    by (simp add: GenericSearchBy_def)
next
  assume a: "len (Data d) \<noteq> 0 \<and> range_order (Data d) order \<and>
    (\<exists>h v. entry d h = Some v \<and> index v param = val)"
  then have "\<exists>v\<in>set (range_values (Data d) order). index v param = val"
    by (auto simp: range_values_set)
  then obtain v where
    f: "List.find (\<lambda>v. index v param = val) (range_values (Data d) order) = Some v"
    by (cases "List.find (\<lambda>v. index v param = val) (range_values (Data d) order)")
       (auto simp: find_None_iff)
  then have "v \<in> set (range_values (Data d) order)" "index v param = val"
    by (auto simp: find_Some_iff)
  with a obtain h where "entry d h = Some v" by (auto simp: range_values_set)
  with f a \<open>index v param = val\<close>
  show "\<exists>h v. entry d h = Some v \<and> index v param = val \<and>
             GenericSearchBy d order param val = (d, Some v, None)"
    by (auto simp: GenericSearchBy_def)
next
  assume "val \<noteq> []"
  then show "(index v param = val) = (fmlookup v param = Some val)" by (rule index_eq_iff)
qed (simp_all add: SearchByName_def SearchByType_def)

text \<open>
  A table of two records: a query for a name no record has, queries for a name and for
  a type one record has, and a query on the table \<^verbatim>\<open>New\<close> makes.
\<close>

theorem search_results_witness:
  "len (Data (tabled (fmupd ''0x0002'' board_attrs (fmupd ''0x0001'' system_attrs fmempty)))) = 2 \<and>
   range_order (Some (fmupd ''0x0002'' board_attrs (fmupd ''0x0001'' system_attrs fmempty)))
     [''0x0002'', ''0x0001''] \<and>
   GenericSearchBy (tabled (fmupd ''0x0002'' board_attrs (fmupd ''0x0001'' system_attrs fmempty)))
     [''0x0002'', ''0x0001''] ''DMIName'' ''Chassis Information'' =
     (tabled (fmupd ''0x0002'' board_attrs (fmupd ''0x0001'' system_attrs fmempty)),
      Some fmempty, None) \<and>
   GenericSearchBy (tabled (fmupd ''0x0002'' board_attrs (fmupd ''0x0001'' system_attrs fmempty)))
     [''0x0002'', ''0x0001''] ''DMIName'' ''System Information'' =
     (tabled (fmupd ''0x0002'' board_attrs (fmupd ''0x0001'' system_attrs fmempty)),
      Some system_attrs, None) \<and>
   SearchByName (tabled (fmupd ''0x0002'' board_attrs (fmupd ''0x0001'' system_attrs fmempty)))
     [''0x0002'', ''0x0001''] ''System Information'' =
     (tabled (fmupd ''0x0002'' board_attrs (fmupd ''0x0001'' system_attrs fmempty)),
      Some system_attrs, None) \<and>
   SearchByType (tabled (fmupd ''0x0002'' board_attrs (fmupd ''0x0001'' system_attrs fmempty)))
     [''0x0002'', ''0x0001''] 2 =
     (tabled (fmupd ''0x0002'' board_attrs (fmupd ''0x0001'' system_attrs fmempty)),
      Some board_attrs, None) \<and>
   GenericSearchBy New [] ''DMIType'' ''2'' = (New, None, Some DataIsEmpty)"
  using search_results
    [of "tabled (fmupd ''0x0002'' board_attrs (fmupd ''0x0001'' system_attrs fmempty))"
        "[''0x0002'', ''0x0001'']" "''DMIName''" "''Chassis Information''" fmempty
        "''System Information''" 2]
    search_results
    [of "tabled (fmupd ''0x0002'' board_attrs (fmupd ''0x0001'' system_attrs fmempty))"
        "[''0x0002'', ''0x0001'']" "''DMIName''" "''System Information''" system_attrs
        "''System Information''" 2]
    search_results [of New "[]" "''DMIType''" "''2''" fmempty "''System Information''" 2]
  by (simp add: GenericSearchBy_def SearchByName_def SearchByType_def range_order_def
        fcard_finsert_if index_def Itoa_def digits.simps New_def DMIDecodeBinary_def)

subsection \<open>C6: leaving a continuation\<close>



subsection \<open>C7: a block of fewer than three lines gives no entry\<close>

text \<open>
  Claim C7. For every input, a block of fewer than 3 lines (the input split into blocks
  at blank lines, the block into lines at line breaks) never produces an entry of the
  table: the body of the loop leaves the \<^verbatim>\<open>DMI\<close> value as it found it, whatever the
  block's lines are, and the whole parse is the parse of the input's other blocks.
\<close>

theorem short_block_no_entry:
  "(length (Split rec [NL]) < 3 \<longrightarrow> process_record d rec = Inr d) \<and>
   ParseDmidecode d output =
     (case records_loop d
             (filter (\<lambda>rec. \<not> length (Split rec [NL]) < 3) (Split output [NL, NL])) of
        Inl p \<Rightarrow> Inl p
      | Inr d' \<Rightarrow> if len (Data d') = 0 then Inr (d', Some UnableToParse) else Inr (d', None))"
  by (simp add: records_loop_filter ParseDmidecode_def process_record_def)

text \<open>
  A header line and a name line with nothing after them: two lines, no entry, and the
  parse of that input alone ends with the error.
\<close>

theorem short_block_no_entry_witness:
  "length (Split (''Handle 0x0001, DMI type 1, 27 bytes'' @ [NL] @ ''System Information'')
             [NL]) = 2 \<and>
   process_record New (''Handle 0x0001, DMI type 1, 27 bytes'' @ [NL] @ ''System Information'')
     = Inr New \<and>
   ParseDmidecode New (''Handle 0x0001, DMI type 1, 27 bytes'' @ [NL] @ ''System Information'')
     = Inr (New, Some UnableToParse)"
  using short_block_no_entry
    [of "''Handle 0x0001, DMI type 1, 27 bytes'' @ [NL] @ ''System Information''" New
        "''Handle 0x0001, DMI type 1, 27 bytes'' @ [NL] @ ''System Information''"]
  by (simp add: Split_def New_def)

subsection \<open>C8: the reserved attributes of a record\<close>

text \<open>
  Claim C8 says that the type code and the byte size of every record are decimal digits
  whatever attribute lines the block has. The loop over the lines stores every key a line
  names, a reserved one as well, over what it finds: the type code below is \<^verbatim>\<open>abc\<close>.
\<close>

theorem reserved_key_overwritten:
  "ParseDmidecode New
     (''Handle 0x0001, DMI type 1, 27 bytes'' @ [NL] @ ''System Information'' @
      [NL, TAB] @ ''DMIType: abc'') =
     Inr (tabled (fmupd ''0x0001''
            (fmupd ''DMIType'' ''abc'' (fmupd ''DMIName'' ''System Information''
              (fmupd ''DMISize'' ''27'' (fmupd ''DMIType'' ''1'' fmempty)))) fmempty), None) \<and>
   fmlookup (fmupd ''DMIType'' ''abc'' (fmupd ''DMIName'' ''System Information''
              (fmupd ''DMISize'' ''27'' (fmupd ''DMIType'' ''1'' fmempty)))) ''DMIType'' =
     Some ''abc'' \<and>
   \<not> run_of Digit ''abc''"
  by (simp add: parse_eval run_of_def)

text \<open>
  Claim C8, amended. When every record of the table before the parse holds the three
  reserved keys (the empty table of \<^verbatim>\<open>New\<close> has no record), every record of the table
  after the parse holds them, whatever attribute lines the blocks have. For a handle a
  block of the text gives an entry for, the record after the parse is the one of the last
  such block; its type code is a non-empty string of decimal digits provided no line of
  that block after line 1 names the key \<^verbatim>\<open>DMIType\<close>, and its byte size is one provided no
  such line names \<^verbatim>\<open>DMISize\<close>. For a handle no block of the text gives an entry for, the
  record after the parse is the record before it.
\<close>

theorem reserved_attributes:
  "(ParseDmidecode d output = Inr (d', e) \<and> entry d' h = Some r \<and>
    (\<forall>h r. entry d h = Some r \<longrightarrow> has_reserved r) \<longrightarrow> has_reserved r) \<and>
   (ParseDmidecode d output = Inr (d', e) \<and>
    Split output [NL, NL] = before @ rec # after \<and> block_entry rec = Some (h, r) \<and>
    (\<forall>rec'\<in>set after. \<forall>r'. block_entry rec' \<noteq> Some (h, r')) \<longrightarrow>
      entry d' h = Some r \<and>
      ((\<forall>line\<in>set (drop 2 (Split rec [NL])). \<not> names_key line ''DMIType'') \<longrightarrow>
         run_of Digit (index r ''DMIType'')) \<and>
      ((\<forall>line\<in>set (drop 2 (Split rec [NL])). \<not> names_key line ''DMISize'') \<longrightarrow>
         run_of Digit (index r ''DMISize''))) \<and>
   (ParseDmidecode d output = Inr (d', e) \<and>
    (\<forall>rec\<in>set (Split output [NL, NL]). \<forall>r'. block_entry rec \<noteq> Some (h, r')) \<longrightarrow>
      entry d' h = entry d h)"
proof (intro conjI impI)
  assume "ParseDmidecode d output = Inr (d', e) \<and> entry d' h = Some r \<and>
    (\<forall>h r. entry d h = Some r \<longrightarrow> has_reserved r)"
  then show "has_reserved r"
    using ParseDmidecode_invariant [of d "output" d' e h r has_reserved]
    by (blast intro: block_entry_has_reserved)
next
  assume a: "ParseDmidecode d output = Inr (d', e) \<and>
    Split output [NL, NL] = before @ rec # after \<and> block_entry rec = Some (h, r) \<and>
    (\<forall>rec'\<in>set after. \<forall>r'. block_entry rec' \<noteq> Some (h, r'))"
  show "entry d' h = Some r"
  proof (cases "Data d")
    case None
    with a have "\<forall>rec\<in>set (Split output [NL, NL]). block_entry rec = None"
      using ParseDmidecode_nil by blast
    with a show ?thesis by simp
  next
    case (Some m)
    from a have "entry d' h =
        (case Data d of None \<Rightarrow> None
         | Some m \<Rightarrow> fmlookup (entries_of (Split output [NL, NL]) m) h)"
      by (intro ParseDmidecode_table) simp
    moreover from a have "fmlookup (entries_of (Split output [NL, NL]) m) h = Some r"
      by (intro entries_of_last [of _ before rec after]) simp_all
    ultimately show ?thesis using Some by simp
  qed
next
  assume "ParseDmidecode d output = Inr (d', e) \<and>
    Split output [NL, NL] = before @ rec # after \<and> block_entry rec = Some (h, r) \<and>
    (\<forall>rec'\<in>set after. \<forall>r'. block_entry rec' \<noteq> Some (h, r'))"
    and "\<forall>line\<in>set (drop 2 (Split rec [NL])). \<not> names_key line ''DMIType''"
  then show "run_of Digit (index r ''DMIType'')" by (blast intro: block_entry_type_digits)
next
  assume "ParseDmidecode d output = Inr (d', e) \<and>
    Split output [NL, NL] = before @ rec # after \<and> block_entry rec = Some (h, r) \<and>
    (\<forall>rec'\<in>set after. \<forall>r'. block_entry rec' \<noteq> Some (h, r'))"
    and "\<forall>line\<in>set (drop 2 (Split rec [NL])). \<not> names_key line ''DMISize''"
  then show "run_of Digit (index r ''DMISize'')" by (blast intro: block_entry_size_digits)
next
  assume a: "ParseDmidecode d output = Inr (d', e) \<and>
    (\<forall>rec\<in>set (Split output [NL, NL]). \<forall>r'. block_entry rec \<noteq> Some (h, r'))"
  then have "entry d' h =
        (case Data d of None \<Rightarrow> None
         | Some m \<Rightarrow> fmlookup (entries_of (Split output [NL, NL]) m) h)"
    by (intro ParseDmidecode_table) simp
  with a show "entry d' h = entry d h"
    by (simp add: entries_of_other entry_def split: option.splits)
qed

text \<open>
  A parse on a table that holds \<^verbatim>\<open>0x0001\<close>, of a text whose first block names the key
  \<^verbatim>\<open>DMIType\<close> and whose second block, \<^verbatim>\<open>0x0002\<close>, does not: the codes of \<^verbatim>\<open>0x0002\<close> are
  digits, and \<^verbatim>\<open>0x0001\<close> keeps its record.
\<close>

theorem reserved_attributes_witness:
  "ParseDmidecode (tabled (fmupd ''0x0001'' system_attrs fmempty))
     (''Handle 0x0003, DMI type 3, 22 bytes'' @ [NL] @ ''Chassis Information'' @ [NL, TAB] @
      ''DMIType: abc'' @ [NL, NL] @ board_block) =
     Inr (tabled (fmupd ''0x0002'' board_attrs
            (fmupd ''0x0003''
               (fmupd ''DMIType'' ''abc'' (fmupd ''DMIName'' ''Chassis Information''
                  (fmupd ''DMISize'' ''22'' (fmupd ''DMIType'' ''3'' fmempty))))
               (fmupd ''0x0001'' system_attrs fmempty))), None) \<and>
   block_entry board_block = Some (''0x0002'', board_attrs) \<and>
   drop 2 (Split board_block [NL]) = [[TAB] @ ''Version: 1.0''] \<and>
   \<not> names_key ([TAB] @ ''Version: 1.0'') ''DMIType'' \<and>
   \<not> names_key ([TAB] @ ''Version: 1.0'') ''DMISize'' \<and>
   has_reserved board_attrs \<and>
   run_of Digit (index board_attrs ''DMIType'') \<and>
   run_of Digit (index board_attrs ''DMISize'') \<and>
   entry (tabled (fmupd ''0x0002'' board_attrs
            (fmupd ''0x0003''
               (fmupd ''DMIType'' ''abc'' (fmupd ''DMIName'' ''Chassis Information''
                  (fmupd ''DMISize'' ''22'' (fmupd ''DMIType'' ''3'' fmempty))))
               (fmupd ''0x0001'' system_attrs fmempty)))) ''0x0001'' = Some system_attrs"
proof -
  let ?d = "tabled (fmupd ''0x0001'' system_attrs fmempty)"
  let ?chassis = "''Handle 0x0003, DMI type 3, 22 bytes'' @ [NL] @ ''Chassis Information'' @
      [NL, TAB] @ ''DMIType: abc''"
  let ?out = "?chassis @ [NL, NL] @ board_block"
  let ?d' = "tabled (fmupd ''0x0002'' board_attrs
            (fmupd ''0x0003''
               (fmupd ''DMIType'' ''abc'' (fmupd ''DMIName'' ''Chassis Information''
                  (fmupd ''DMISize'' ''22'' (fmupd ''DMIType'' ''3'' fmempty))))
               (fmupd ''0x0001'' system_attrs fmempty)))"
  have parse: "ParseDmidecode ?d ?out = Inr (?d', None)" by (simp add: parse_eval)
  have blocks: "Split ?out [NL, NL] = [?chassis] @ board_block # []" by (simp add: Split_def)
  have board: "block_entry board_block = Some (''0x0002'', board_attrs)"
    by (simp add: block_entry_def parse_eval)
  have lines: "drop 2 (Split board_block [NL]) = [[TAB] @ ''Version: 1.0'']"
    by (simp add: Split_def)
  have n1: "\<not> names_key ([TAB] @ ''Version: 1.0'') ''DMIType''"
    and n2: "\<not> names_key ([TAB] @ ''Version: 1.0'') ''DMISize''"
    by (simp_all add: names_key_def parse_eval)
  have t: "\<forall>line\<in>set (drop 2 (Split board_block [NL])). \<not> names_key line ''DMIType''"
    and s: "\<forall>line\<in>set (drop 2 (Split board_block [NL])). \<not> names_key line ''DMISize''"
    by (simp_all add: names_key_def parse_eval)
  have none: "\<forall>rec\<in>set (Split ?out [NL, NL]). \<forall>r'. block_entry rec \<noteq> Some (''0x0001'', r')"
    by (simp add: block_entry_def parse_eval)
  have prior: "\<forall>h r. entry ?d h = Some r \<longrightarrow> has_reserved r"
    by (simp add: entry_def has_reserved_def)
  have last: "\<forall>rec'\<in>set []. \<forall>r'. block_entry rec' \<noteq> Some (''0x0002'', r')" by simp
  note inst = reserved_attributes
    [of ?d ?out ?d' None _ _ "[?chassis]" board_block "[]"]
  from inst [of "''0x0002''" board_attrs] parse blocks board last
  have e: "entry ?d' ''0x0002'' = Some board_attrs"
    and dt: "run_of Digit (index board_attrs ''DMIType'')"
    and ds: "run_of Digit (index board_attrs ''DMISize'')"
    using t s by blast+
  from inst [of "''0x0002''" board_attrs] parse e prior
  have hr: "has_reserved board_attrs" by blast
  from inst [of "''0x0001''" board_attrs] parse none
  have "entry ?d' ''0x0001'' = entry ?d ''0x0001''" by blast
  then have k: "entry ?d' ''0x0001'' = Some system_attrs" by (simp add: entry_def)
  from parse board lines n1 n2 hr dt ds k show ?thesis by simp
qed

subsection \<open>C9: the last block of a handle gives its record\<close>

text \<open>
  Claim C9 speaks of every block whose header line carries the handle. A block of fewer
  than 3 lines is skipped before its header is read (source lines 91 to 93), so when the
  last block with the handle has two lines the record of the earlier block stays, with
  its \<^verbatim>\<open>Manufacturer\<close>. And on a \<^verbatim>\<open>DMI\<close> value whose table is \<^verbatim>\<open>nil\<close> there is no table
  after the parse: line 104 panics at the first block that carries a handle.
\<close>

theorem short_last_block_keeps_record:
  "Split (system_block @ [NL, NL] @ ''Handle 0x0001, DMI type 1, 27 bytes'' @ [NL] @
          ''System Information'') [NL, NL] =
     [system_block, ''Handle 0x0001, DMI type 1, 27 bytes'' @ [NL] @ ''System Information''] \<and>
   FindStringSubmatch handleRegex ''Handle 0x0001, DMI type 1, 27 bytes'' ! 1 = ''0x0001'' \<and>
   process_record New
     (''Handle 0x0001, DMI type 1, 27 bytes'' @ [NL] @ ''System Information'') = Inr New \<and>
   ParseDmidecode New
     (system_block @ [NL, NL] @ ''Handle 0x0001, DMI type 1, 27 bytes'' @ [NL] @
      ''System Information'') =
     Inr (tabled (fmupd ''0x0001'' system_attrs fmempty), None) \<and>
   fmlookup system_attrs ''Manufacturer'' = Some ''Acme'' \<and>
   ParseDmidecode \<lparr>Data = None, Binary = ''dmidecode''\<rparr>
     (system_block @ [NL, NL] @ version_block) = Inl AssignmentToEntryInNilMap"
  by (simp add: parse_eval)

text \<open>
  Claim C9, amended. On a \<^verbatim>\<open>DMI\<close> value whose table is not \<^verbatim>\<open>nil\<close>, a block counts when
  it has at least 3 lines and the header pattern matches its first line; its handle is
  the first group. What is parsed from a block is the record the loop body stores for it
  in the empty table of \<^verbatim>\<open>New\<close>. For the last block of the input that counts and has the
  handle \<open>h\<close>, the table after the parse holds exactly that record under \<open>h\<close>: nothing
  of what earlier blocks of the input, or the table before the parse, held under \<open>h\<close>
  is left.
\<close>

theorem last_block_wins:
  assumes "Data d = Some m"
    and "Split output [NL, NL] = before @ rec # after"
    and "3 \<le> length (Split rec [NL])"
    and "FindStringSubmatch handleRegex (Split rec [NL] ! 0) \<noteq> []"
    and "h = FindStringSubmatch handleRegex (Split rec [NL] ! 0) ! 1"
    and "\<forall>rec'\<in>set after.
           3 \<le> length (Split rec' [NL]) \<and>
           FindStringSubmatch handleRegex (Split rec' [NL] ! 0) \<noteq> [] \<longrightarrow>
           FindStringSubmatch handleRegex (Split rec' [NL] ! 0) ! 1 \<noteq> h"
  shows "\<exists>d' d\<^sub>1 r. ParseDmidecode d output = Inr (d', None) \<and>
           process_record New rec = Inr d\<^sub>1 \<and> entry d\<^sub>1 h = Some r \<and> entry d' h = Some r"
proof -
  let ?t = "entries_of (Split output [NL, NL]) m"
  from assms(3-5) obtain r where rec: "block_entry rec = Some (h, r)"
    by (simp add: block_entry_Some del: FindStringSubmatch.simps)
  have after: "\<forall>rec'\<in>set after. \<forall>r'. block_entry rec' \<noteq> Some (h, r')"
    using assms(6) by (auto simp add: block_entry_Some simp del: FindStringSubmatch.simps)
  have "fmlookup ?t h = fmlookup (entries_of after (fmupd h r (entries_of before m))) h"
    using assms(2) rec by (simp add: entries_of_append)
  also have "\<dots> = Some r" using after by (simp add: entries_of_other)
  finally have look: "fmlookup ?t h = Some r" .
  then have "?t \<noteq> fmempty" by auto
  moreover obtain d\<^sub>1 where d1: "process_record New rec = Inr d\<^sub>1"
    using process_record_New_total by blast
  moreover from d1 rec have "entry d\<^sub>1 h = Some r" by (simp add: process_record_New)
  ultimately show ?thesis
    using assms(1) look by (simp add: ParseDmidecode_entries_of entry_def)
qed

text \<open>
  Two blocks with the handle \<^verbatim>\<open>0x0001\<close> and one with another handle after them, parsed
  on a table that holds a record for \<^verbatim>\<open>0x0001\<close> already: the record of \<^verbatim>\<open>0x0001\<close> is the
  one of the second block, with its \<^verbatim>\<open>Version\<close> and no \<^verbatim>\<open>Manufacturer\<close>.
\<close>

theorem last_block_wins_witness:
  "Split (system_block @ [NL, NL] @ version_block @ [NL, NL] @ board_block) [NL, NL] =
     [system_block] @ version_block # [board_block] \<and>
   Split version_block [NL] =
     [''Handle 0x0001, DMI type 1, 27 bytes'', ''System Information'', [TAB] @ ''Version: 2''] \<and>
   FindStringSubmatch handleRegex ''Handle 0x0001, DMI type 1, 27 bytes'' ! 1 = ''0x0001'' \<and>
   FindStringSubmatch handleRegex ''Handle 0x0002, DMI type 2, 15 bytes'' ! 1 = ''0x0002'' \<and>
   process_record New version_block = Inr (tabled (fmupd ''0x0001'' version_attrs fmempty)) \<and>
   ParseDmidecode (tabled (fmupd ''0x0001'' system_attrs fmempty))
     (system_block @ [NL, NL] @ version_block @ [NL, NL] @ board_block) =
     Inr (tabled (fmupd ''0x0002'' board_attrs (fmupd ''0x0001'' version_attrs fmempty)), None) \<and>
   entry (tabled (fmupd ''0x0002'' board_attrs (fmupd ''0x0001'' version_attrs fmempty)))
     ''0x0001'' = Some version_attrs \<and>
   fmlookup version_attrs ''Manufacturer'' = None"
proof -
  let ?d = "tabled (fmupd ''0x0001'' system_attrs fmempty)"
  let ?out = "system_block @ [NL, NL] @ version_block @ [NL, NL] @ board_block"
  have blocks: "Split ?out [NL, NL] = [system_block] @ version_block # [board_block]"
    by (simp add: Split_def)
  have lines: "Split version_block [NL] =
     [''Handle 0x0001, DMI type 1, 27 bytes'', ''System Information'', [TAB] @ ''Version: 2'']"
    by (simp add: Split_def)
  have h1: "FindStringSubmatch handleRegex ''Handle 0x0001, DMI type 1, 27 bytes'' ! 1 =
      ''0x0001''"
    by (simp add: handleRegex_def submatches_def)
  have h2: "FindStringSubmatch handleRegex ''Handle 0x0002, DMI type 2, 15 bytes'' ! 1 =
      ''0x0002''"
    by (simp add: handleRegex_def submatches_def)
  have alone: "process_record New version_block =
      Inr (tabled (fmupd ''0x0001'' version_attrs fmempty))"
    by (simp add: parse_eval)
  have parse: "ParseDmidecode ?d ?out =
      Inr (tabled (fmupd ''0x0002'' board_attrs (fmupd ''0x0001'' version_attrs fmempty)), None)"
    by (simp add: parse_eval)
  have "Data ?d = Some (fmupd ''0x0001'' system_attrs fmempty)" by simp
  moreover have "3 \<le> length (Split version_block [NL])" by (simp add: Split_def)
  moreover have "FindStringSubmatch handleRegex (Split version_block [NL] ! 0) \<noteq> []"
    by (simp add: Split_def handleRegex_def submatches_def)
  moreover have "''0x0001'' = FindStringSubmatch handleRegex (Split version_block [NL] ! 0) ! 1"
    by (simp add: Split_def handleRegex_def submatches_def)
  moreover have "\<forall>rec'\<in>set [board_block].
           3 \<le> length (Split rec' [NL]) \<and>
           FindStringSubmatch handleRegex (Split rec' [NL] ! 0) \<noteq> [] \<longrightarrow>
           FindStringSubmatch handleRegex (Split rec' [NL] ! 0) ! 1 \<noteq> ''0x0001''"
    by (simp add: Split_def handleRegex_def submatches_def)
  ultimately obtain d' d\<^sub>1 r where p: "ParseDmidecode ?d ?out = Inr (d', None)"
    and q: "process_record New version_block = Inr d\<^sub>1"
    and e1: "entry d\<^sub>1 ''0x0001'' = Some r" and e2: "entry d' ''0x0001'' = Some r"
    using last_block_wins [OF _ blocks] by blast
  from p parse
  have "d' = tabled (fmupd ''0x0002'' board_attrs (fmupd ''0x0001'' version_attrs fmempty))"
    by simp
  moreover from q alone have "d\<^sub>1 = tabled (fmupd ''0x0001'' version_attrs fmempty)" by simp
  with e1 have "r = version_attrs" by (simp add: entry_def)
  ultimately
  have "entry (tabled (fmupd ''0x0002'' board_attrs (fmupd ''0x0001'' version_attrs fmempty)))
     ''0x0001'' = Some version_attrs"
    using e2 by simp
  with blocks lines h1 h2 alone parse show ?thesis by simp
qed

subsection \<open>C10: the queries change nothing\<close>

text \<open>
  Claim C10. \<^verbatim>\<open>GenericSearchBy\<close>, \<^verbatim>\<open>SearchByName\<close> and \<^verbatim>\<open>SearchByType\<close> never modify the
  \<^verbatim>\<open>DMI\<close> value: its table and its \<^verbatim>\<open>Binary\<close> field are after the query what they were
  before, whether the query finds a record, finds none or returns the error. (The map
  a query returns is the one the table holds; what its caller does with it afterwards
  is no effect of the query.)
\<close>

theorem queries_change_nothing:
  "fst (GenericSearchBy d order param val) = d \<and>
   fst (SearchByName d order name) = d \<and>
   fst (SearchByType d order i) = d"
  by (simp add: GenericSearchBy_def SearchByName_def SearchByType_def split: option.splits)

text \<open>
  A query that finds a record, one that finds none and one that returns the error.
\<close>

theorem queries_change_nothing_witness:
  "GenericSearchBy (tabled (fmupd ''0x0001'' system_attrs fmempty)) [''0x0001'']
     ''Manufacturer'' ''Acme'' =
     (tabled (fmupd ''0x0001'' system_attrs fmempty), Some system_attrs, None) \<and>
   SearchByType (tabled (fmupd ''0x0001'' system_attrs fmempty)) [''0x0001''] 2 =
     (tabled (fmupd ''0x0001'' system_attrs fmempty), Some fmempty, None) \<and>
   SearchByName New [] ''System Information'' = (New, None, Some DataIsEmpty)"
  using queries_change_nothing
    [of "tabled (fmupd ''0x0001'' system_attrs fmempty)" "[''0x0001'']" "''Manufacturer''"
        "''Acme''" "''System Information''" 2]
    queries_change_nothing [of New "[]" "''Manufacturer''" "''Acme''" "''System Information''" 2]
  by (simp add: GenericSearchBy_def SearchByName_def SearchByType_def fcard_finsert_if
        index_def Itoa_def digits.simps New_def DMIDecodeBinary_def)

section \<open>Further properties\<close>

text \<open>
  The example of the specification: one record with a scalar attribute and a continuation
  attribute of two fragments, the last line ended by a line feed.
\<close>

theorem spec_example:
  "ParseDmidecode New
     (''Handle 0x0001, DMI type 1, 27 bytes'' @ [NL] @ ''System Information'' @
      [NL, TAB] @ ''Manufacturer: Acme'' @ [NL, TAB] @ ''Version:'' @
      [NL, TAB, TAB] @ ''v1'' @ [NL, TAB, TAB] @ ''v2'' @ [NL]) =
   Inr (tabled (fmupd ''0x0001''
          (fmupd ''Version'' (''v1'' @ [TAB, TAB] @ ''v2'') system_attrs) fmempty), None)"
  by (simp add: parse_eval)

text \<open>
  In the continuation state under the key \<open>el\<close>, a run of lines the pattern of the
  doubly indented lines matches stores under \<open>el\<close> the accumulator it starts from, when
  that is not empty, and then its fragments, all joined by two tabs in the order of the
  lines. The first continuation attribute of a record starts from the empty accumulator
  and so holds exactly its own fragments.
\<close>

theorem continuation_value:
  "(el \<noteq> [] \<and> ls \<noteq> [] \<and> (\<forall>line\<in>set ls. FindStringSubmatch inBlockRegex line \<noteq> []) \<longrightarrow>
      scan r el [] (ls @ rest) =
        scan (fmupd el (join_tabs (fragments ls)) r) el (join_tabs (fragments ls)) rest) \<and>
   (el \<noteq> [] \<and> ls \<noteq> [] \<and> (\<forall>line\<in>set ls. FindStringSubmatch inBlockRegex line \<noteq> []) \<and>
    bl \<noteq> [] \<longrightarrow>
      scan r el bl (ls @ rest) =
        scan (fmupd el (join_tabs (bl # fragments ls)) r) el (join_tabs (bl # fragments ls)) rest)"
  using scan_run [of el ls "[]" "[]" r rest] scan_run [of el ls "[bl]" bl r rest]
  by simp

theorem continuation_value_witness:
  "FindStringSubmatch inBlockRegex ([TAB, TAB] @ ''FPU'') = [[TAB, TAB] @ ''FPU'', ''FPU''] \<and>
   FindStringSubmatch inBlockRegex ([TAB, TAB] @ ''VME'') = [[TAB, TAB] @ ''VME'', ''VME''] \<and>
   fragments [[TAB, TAB] @ ''FPU'', [TAB, TAB] @ ''VME''] = [''FPU'', ''VME''] \<and>
   scan fmempty ''Flags'' [] [[TAB, TAB] @ ''FPU'', [TAB, TAB] @ ''VME''] =
     fmupd ''Flags'' (''FPU'' @ [TAB, TAB] @ ''VME'') fmempty \<and>
   scan fmempty ''Flags'' ''MMX'' [[TAB, TAB] @ ''FPU'', [TAB, TAB] @ ''VME''] =
     fmupd ''Flags'' (''MMX'' @ [TAB, TAB] @ ''FPU'' @ [TAB, TAB] @ ''VME'') fmempty"
  using continuation_value
    [of "''Flags''" "[[TAB, TAB] @ ''FPU'', [TAB, TAB] @ ''VME'']" fmempty "[]" "''MMX''"]
  by (simp add: inBlockRegex_def submatches_def fragments_def)

text \<open>
  On a \<^verbatim>\<open>DMI\<close> value with a table \<^verbatim>\<open>ParseDmidecode\<close> always returns. On one whose table
  is \<^verbatim>\<open>nil\<close> it panics at the first block of at least 3 lines whose first line the
  header pattern matches, and returns the error when the input has no such block.
\<close>

theorem panic_only_on_nil:
  "(Data d \<noteq> None \<longrightarrow> (\<exists>d' e. ParseDmidecode d output = Inr (d', e))) \<and>
   (Data d = None \<longrightarrow>
      ParseDmidecode d output =
        (if \<forall>rec\<in>set (Split output [NL, NL]).
              length (Split rec [NL]) < 3 \<or>
              FindStringSubmatch handleRegex (Split rec [NL] ! 0) = []
         then Inr (d, Some UnableToParse)
         else Inl AssignmentToEntryInNilMap))"
proof (intro conjI impI)
  assume "Data d \<noteq> None"
  then obtain m where "Data d = Some m" by auto
  then show "\<exists>d' e. ParseDmidecode d output = Inr (d', e)"
    by (simp add: ParseDmidecode_entries_of)
next
  assume nil: "Data d = None"
  have "block_entry rec = None \<longleftrightarrow>
        length (Split rec [NL]) < 3 \<or> FindStringSubmatch handleRegex (Split rec [NL] ! 0) = []"
    for rec
    by (auto simp add: block_entry_def Let_def simp del: FindStringSubmatch.simps)
  then show "ParseDmidecode d output =
        (if \<forall>rec\<in>set (Split output [NL, NL]).
              length (Split rec [NL]) < 3 \<or>
              FindStringSubmatch handleRegex (Split rec [NL] ! 0) = []
         then Inr (d, Some UnableToParse)
         else Inl AssignmentToEntryInNilMap)"
    using nil by (simp add: ParseDmidecode_def records_loop_nil del: FindStringSubmatch.simps)
qed

theorem panic_only_on_nil_witness:
  "Data \<lparr>Data = None, Binary = []\<rparr> = None \<and>
   ParseDmidecode \<lparr>Data = None, Binary = []\<rparr> system_block = Inl AssignmentToEntryInNilMap \<and>
   ParseDmidecode \<lparr>Data = None, Binary = []\<rparr> ''# dmidecode 3.3'' =
     Inr (\<lparr>Data = None, Binary = []\<rparr>, Some UnableToParse) \<and>
   Data New \<noteq> None \<and>
   ParseDmidecode New system_block = Inr (tabled (fmupd ''0x0001'' system_attrs fmempty), None)"
  using panic_only_on_nil [of "\<lparr>Data = None, Binary = []\<rparr>" system_block]
    panic_only_on_nil [of "\<lparr>Data = None, Binary = []\<rparr>" "''# dmidecode 3.3''"]
    panic_only_on_nil [of New system_block]
  by (simp add: parse_eval)

end
